theory Spec2Isabelle
  imports Main "HOL-Library.Word"
begin

unbundle bit_operations_syntax

section \<open>Constants of notmuchfs.c and of the C library\<close>

text \<open>
  Paths, tags and file contents are byte strings (\<open>char list\<close>). A C string is modelled
  by its contents without the terminating NUL; a buffer whose NUL bytes matter (the header
  buffer, the excluded-tags buffer) is modelled by all of its bytes.
\<close>

definition NUL :: char where
  "NUL = CHR 0x00"

definition MAX_XLABEL_LENGTH :: nat where
  "MAX_XLABEL_LENGTH = 1024"

definition XLABEL :: string where
  "XLABEL = ''X-Label: ''"

definition TAG_ERROR_STRING :: string where
  "TAG_ERROR_STRING = ''ERROR''"

definition EXCLUDED_TAGS_MAX_LENGTH :: nat where
  "EXCLUDED_TAGS_MAX_LENGTH = 128"

text \<open>\<open>PATH_MAX\<close> of \<open>limits.h\<close> and \<open>INT_MAX\<close>, with the values they have on Linux.\<close>

definition PATH_MAX :: nat where
  "PATH_MAX = 4096"

definition INT_MAX :: int where
  "INT_MAX = 2147483647"

text \<open>The \<open>errno\<close> values the program names, and \<open>O_RDONLY\<close>.\<close>

definition ENOENT :: int where "ENOENT = 2"
definition EIO :: int where "EIO = 5"
definition EACCES :: int where "EACCES = 13"
definition EDOM :: int where "EDOM = 33"
definition ENOTSUP :: int where "ENOTSUP = 95"
definition O_RDONLY :: int where "O_RDONLY = 0"

text \<open>
  How a call of the program can end: it returns a value, an \<open>assert\<close> fails, it
  dereferences a pointer derived from \<open>NULL\<close>, \<open>database_open\<close> ends the process with
  \<open>exit\<close>, or \<open>database_open\<close> is still retrying.
\<close>

datatype 'a outcome = Return 'a | Abort | Segfault | Exit int | Blocked

text \<open>The conversion \<open>(int)\<close> of a byte count: the low 32 bits, read as signed.\<close>

definition int_cast :: "nat \<Rightarrow> int" where
  "int_cast n = sint (word_of_nat n :: 32 word)"

section \<open>String helpers\<close>

text \<open>\<open>string_replace (str_in, old, new)\<close>: every \<open>old\<close> becomes \<open>new\<close>, up to the NUL.\<close>

fun string_replace :: "string \<Rightarrow> char \<Rightarrow> char \<Rightarrow> string" where
  "string_replace [] old new = []"
| "string_replace (c # str) old new =
     (if c = old then new else c) # string_replace str old new"

text \<open>
  \<open>strchr\<close> and \<open>strrchr\<close> return the position of the first and of the last occurrence,
  \<open>None\<close> for \<open>NULL\<close>. \<open>strchr_from s i c\<close> is \<open>strchr (s + i, c)\<close>, as a position in \<open>s\<close>.
\<close>

fun strchr :: "string \<Rightarrow> char \<Rightarrow> nat option" where
  "strchr [] c = None"
| "strchr (x # xs) c = (if x = c then Some 0 else map_option Suc (strchr xs c))"

fun strrchr :: "string \<Rightarrow> char \<Rightarrow> nat option" where
  "strrchr [] c = None"
| "strrchr (x # xs) c =
     (case strrchr xs c of
        Some i \<Rightarrow> Some (Suc i)
      | None \<Rightarrow> if x = c then Some 0 else None)"

definition strchr_from :: "string \<Rightarrow> nat \<Rightarrow> char \<Rightarrow> nat option" where
  "strchr_from s i c = map_option (\<lambda>k. k + i) (strchr (drop i s) c)"

definition strrchr_from :: "string \<Rightarrow> nat \<Rightarrow> char \<Rightarrow> nat option" where
  "strrchr_from s i c = map_option (\<lambda>k. k + i) (strrchr (drop i s) c)"

text \<open>
  \<open>memcpy (mem + pos, src, length src)\<close> on a buffer \<open>mem\<close>. The callers below keep
  \<open>pos + length src\<close> within the buffer.
\<close>

definition memcpy :: "char list \<Rightarrow> nat \<Rightarrow> char list \<Rightarrow> char list" where
  "memcpy mem pos src = take pos mem @ src @ drop (pos + length src) mem"

text \<open>
  \<open>memcmp (s + (p - 3), w, 3) == 0\<close> for a three-byte word \<open>w\<close>. When \<open>p < 3\<close> the C code
  reads before the path; one of the bytes compared is then the leading \<open>/\<close> of the path,
  which is in neither \<open>cur\<close> nor \<open>new\<close>, so the comparison fails.
\<close>

definition three_before :: "string \<Rightarrow> nat \<Rightarrow> string \<Rightarrow> bool" where
  "three_before s p w = (3 \<le> p \<and> take 3 (drop (p - 3) s) = w)"

section \<open>The environment: backing store and index\<close>

record stat =
  st_ino :: nat
  st_mode :: nat
  st_size :: int

definition zero_stat :: stat where
  "zero_stat = \<lparr>st_ino = 0, st_mode = 0, st_size = 0\<rparr>"

definition S_ISLNK :: "nat \<Rightarrow> bool" where
  "S_ISLNK m = ((m AND 0xF000) = 0xA000)"

datatype notmuch_status =
    NOTMUCH_STATUS_SUCCESS
  | NOTMUCH_STATUS_XAPIAN_EXCEPTION
  | NOTMUCH_STATUS_DUPLICATE_MESSAGE_ID
  | NOTMUCH_STATUS_OTHER nat

text \<open>A message of the index: its file name (\<open>None\<close> for \<open>NULL\<close>) and its tags.\<close>

record message =
  msg_filename :: "string option"
  msg_tags :: "string list"

text \<open>A query object: the query string and the tags registered for exclusion.\<close>

record query =
  query_string :: string
  tag_excludes :: "string list"
  omit_excluded_all :: bool

text \<open>
  What the system calls and the index library answer. An error is \<open>Inl errno\<close>.
  \<open>db_open_r\<close> lists the statuses of the successive \<open>notmuch_database_open\<close> calls.
\<close>

record world =
  stat_r :: "string \<Rightarrow> int + stat"
  lstat_r :: "string \<Rightarrow> int + stat"
  readlink_r :: "string \<Rightarrow> int + string"
  open_r :: "string \<Rightarrow> int + int"
  pread_r :: "int \<Rightarrow> nat \<Rightarrow> int \<Rightarrow> int + char list"
  rename_r :: "string \<Rightarrow> string \<Rightarrow> int option"
  db_open_r :: "notmuch_status list"
  db_needs_upgrade :: bool
  query_create_r :: "string \<Rightarrow> bool"
  search_messages_r :: "query \<Rightarrow> notmuch_status \<times> message list"
  find_message_r :: "string \<Rightarrow> notmuch_status \<times> message option"
  begin_atomic_r :: notmuch_status
  add_message_r :: "string \<Rightarrow> notmuch_status"
  remove_message_r :: "string \<Rightarrow> notmuch_status"
  add_tag_r :: "string \<Rightarrow> string \<Rightarrow> notmuch_status"
  end_atomic_r :: notmuch_status

text \<open>
  \<open>database_open\<close>: retry while the open reports a Xapian exception, leave the process on
  any other failure and when the database needs an upgrade. The list holds the answers
  the library gives; when it runs out the call is still retrying.
\<close>

datatype db_open_outcome = Opened | Exits | Retrying

fun database_open :: "notmuch_status list \<Rightarrow> bool \<Rightarrow> db_open_outcome" where
  "database_open [] upgrade = Retrying"
| "database_open (status # rest) upgrade =
     (if status = NOTMUCH_STATUS_SUCCESS then (if upgrade then Exits else Opened)
      else if status = NOTMUCH_STATUS_XAPIAN_EXCEPTION then database_open rest upgrade
      else Exits)"

section \<open>getattr\<close>

text \<open>
  The result is the return value and the \<open>stat\<close> buffer, which starts zeroed and is left
  so by a failing \<open>stat\<close>.
\<close>

definition sys_stat :: "(int + stat) \<Rightarrow> int \<times> stat" where
  "sys_stat r = (case r of Inl err \<Rightarrow> (- err, zero_stat) | Inr st \<Rightarrow> (0, st))"

definition notmuchfs_getattr :: "bool \<Rightarrow> world \<Rightarrow> string \<Rightarrow> int \<times> stat" where
  "notmuchfs_getattr mutt_2476_workaround_allowed w path =
     (if path = ''/'' then sys_stat (stat_r w ''.'')
      else case strrchr_from path 1 CHR ''/'' of
        None \<Rightarrow> sys_stat (lstat_r w (drop 1 path))
      | Some last_slash \<Rightarrow>
          if drop (last_slash + 1) path = ''new'' \<or>
             drop (last_slash + 1) path = ''tmp'' \<or>
             drop (last_slash + 1) path = ''cur''
          then sys_stat (stat_r w (take last_slash (drop 1 path)))
          else
            let first_slash = (case strchr_from path 1 CHR ''/'' of
                                 Some i \<Rightarrow> i | None \<Rightarrow> last_slash);
                mutt_2476_workaround =
                  (mutt_2476_workaround_allowed \<and> three_before path last_slash ''new'')
            in if mutt_2476_workaround \<or>
                  (int last_slash - int first_slash > 3 \<and>
                   take 5 (drop first_slash path) = ''/cur/'')
               then
                 let trans_name =
                       string_replace (take (PATH_MAX - 1) (drop (last_slash + 1) path))
                         CHR ''#'' CHR ''/'';
                     (res, stbuf) = sys_stat (stat_r w trans_name)
                 in (res, stbuf\<lparr>st_size := st_size stbuf + int MAX_XLABEL_LENGTH\<rparr>)
               else (- ENOENT, zero_stat))"

section \<open>The X-Label header\<close>

text \<open>
  The loop of \<open>fill_string_with_tags\<close>. \<open>mem\<close> is the header buffer, \<open>buf_in\<close> and \<open>buf\<close>
  are positions in it, \<open>tags\<close> is the iterator (its head is \<open>notmuch_tags_get\<close>, a
  non-empty tail is \<open>notmuch_tags_valid\<close> after the move). The result is the buffer, the
  position reached and the \<open>error\<close> flag. \<open>len - (buf - buf_in)\<close> is computed on \<open>size_t\<close>
  in C; \<open>buf - buf_in\<close> never exceeds \<open>len\<close>, so nothing wraps.
\<close>

fun fill_tags_loop ::
  "char list \<Rightarrow> nat \<Rightarrow> nat \<Rightarrow> string list \<Rightarrow> nat \<Rightarrow> char list \<times> nat \<times> bool" where
  "fill_tags_loop mem buf_in len [] buf = (mem, buf, False)"
| "fill_tags_loop mem buf_in len (tag_str # tags) buf =
     (if length tag_str \<ge> len - (buf - buf_in) then (mem, buf, True)
      else
        let mem1 = memcpy mem buf tag_str;
            buf1 = buf + length tag_str
        in if tags \<noteq> [] then
             (if len - (buf1 - buf_in) < 1 then (mem1, buf1, True)
              else fill_tags_loop (mem1[buf1 := CHR '','']) buf_in len tags (buf1 + 1))
           else fill_tags_loop mem1 buf_in len tags buf1)"

text \<open>The result is the buffer and the number of bytes written from \<open>buf_in\<close> on.\<close>

definition fill_string_with_tags ::
  "char list \<Rightarrow> nat \<Rightarrow> nat \<Rightarrow> string list \<Rightarrow> char list \<times> nat" where
  "fill_string_with_tags mem buf_in len tags =
     (case fill_tags_loop mem buf_in len tags buf_in of
        (mem1, buf, error) \<Rightarrow>
          if error
          then (memcpy mem1 buf_in TAG_ERROR_STRING, length TAG_ERROR_STRING)
          else (mem1, buf - buf_in))"

text \<open>
  The padding loop of \<open>notmuchfs_open\<close>. Its \<open>assert\<close> asks for one free byte, which the
  loop condition \<open>buf < MAX_XLABEL_LENGTH - 1\<close> already gives.
\<close>

function pad_loop :: "char list \<Rightarrow> nat \<Rightarrow> char list \<times> nat" where
  "pad_loop mem buf =
     (if buf < MAX_XLABEL_LENGTH - 1 then pad_loop (mem[buf := CHR '' '']) (buf + 1)
      else (mem, buf))"
  by pat_completeness auto
termination
  by (relation "measure (\<lambda>(mem, buf). MAX_XLABEL_LENGTH - 1 - buf)") auto

declare pad_loop.simps [simp del]

text \<open>The header written into the zeroed \<open>x_label\<close> for a message with the given tags.\<close>

definition compose_x_label :: "char list \<Rightarrow> string list \<Rightarrow> char list outcome" where
  "compose_x_label x_label0 tags =
     (if \<not> (MAX_XLABEL_LENGTH > length XLABEL + length TAG_ERROR_STRING + 1) then Abort
      else
        let mem1 = memcpy x_label0 0 XLABEL;
            buf1 = length XLABEL;
            (mem2, n) = fill_string_with_tags mem1 buf1
                          (MAX_XLABEL_LENGTH - length XLABEL - 1) tags;
            (mem3, buf3) = pad_loop mem2 (buf1 + n)
        in if \<not> (1 \<le> int MAX_XLABEL_LENGTH - int buf3) then Abort
           else Return (mem3[buf3 := CHR 0x0A]))"

section \<open>open and read\<close>

record open_t =
  fh :: int
  x_label :: "char list"

definition open_backing :: "world \<Rightarrow> open_t \<Rightarrow> string \<Rightarrow> (int + open_t) outcome" where
  "open_backing w p_open name =
     (case open_r w name of
        Inl err \<Rightarrow> Return (Inl (- err))
      | Inr fd \<Rightarrow> Return (Inr (p_open\<lparr>fh := fd\<rparr>)))"

text \<open>The result is \<open>Inl\<close> the negative \<open>errno\<close> returned, or \<open>Inr\<close> the handle stored in \<open>fi->fh\<close>.\<close>

definition notmuchfs_open :: "world \<Rightarrow> string \<Rightarrow> int \<Rightarrow> (int + open_t) outcome" where
  "notmuchfs_open w path flags =
     (if (flags AND 3) \<noteq> O_RDONLY then Return (Inl (- EACCES))
      else
        let p_open = \<lparr>fh = 0, x_label = replicate MAX_XLABEL_LENGTH NUL\<rparr>
        in case strrchr_from path 1 CHR ''/'' of
          None \<Rightarrow> open_backing w p_open (drop 1 path)
        | Some last_slash \<Rightarrow>
            let trans_name = take (PATH_MAX - 1) (drop (last_slash + 1) path)
            in case strchr trans_name CHR ''#'' of
              None \<Rightarrow> open_backing w p_open trans_name
            | Some first_pslash \<Rightarrow>
                let trans_name = string_replace trans_name CHR ''#'' CHR ''/''
                in case database_open (db_open_r w) (db_needs_upgrade w) of
                  Exits \<Rightarrow> Exit 1
                | Retrying \<Rightarrow> Blocked
                | Opened \<Rightarrow>
                    let (status, p_message) = find_message_r w trans_name
                    in if status = NOTMUCH_STATUS_SUCCESS then
                         (case p_message of
                            None \<Rightarrow> open_backing w p_open trans_name
                          | Some msg \<Rightarrow>
                              (case compose_x_label (x_label p_open) (msg_tags msg) of
                                 Return xl \<Rightarrow>
                                   open_backing w (p_open\<lparr>x_label := xl\<rparr>) trans_name
                               | Abort \<Rightarrow> Abort
                               | Segfault \<Rightarrow> Segfault
                               | Exit c \<Rightarrow> Exit c
                               | Blocked \<Rightarrow> Blocked))
                       else Return (Inl (- EIO)))"

text \<open>
  \<open>notmuchfs_read\<close>. \<open>sz\<close> is the \<open>size_t size\<close>; \<open>offset\<close> is the file offset FUSE passes, never
  negative. The result is the return value and the bytes written to \<open>buf_in\<close>.
\<close>

definition notmuchfs_read :: "world \<Rightarrow> open_t \<Rightarrow> nat \<Rightarrow> nat \<Rightarrow> int \<times> char list" where
  "notmuchfs_read w p_open sz offset =
     (let (buf, offset_adj, offset1) =
            (if offset < MAX_XLABEL_LENGTH then
               let bytes_to_copy = min (MAX_XLABEL_LENGTH - offset) sz
               in (take bytes_to_copy (drop offset (x_label p_open)),
                   offset + bytes_to_copy, offset + bytes_to_copy)
             else ([], MAX_XLABEL_LENGTH, offset));
          bytes_to_read = sz - length buf
      in if bytes_to_read > 0 then
           (case pread_r w (fh p_open) bytes_to_read (int offset1 - int offset_adj) of
              Inl err \<Rightarrow> (- err, buf)
            | Inr bytes \<Rightarrow> (int_cast (length buf + length bytes), buf @ bytes))
         else (int_cast (length buf), buf))"


section \<open>Directory handles: init, opendir, readdir\<close>

text \<open>
  The context of the index. The mutex and the database handle are left out: the model runs
  one operation at a time. \<open>excluded_tags\<close> is the whole buffer of
  \<open>EXCLUDED_TAGS_MAX_LENGTH\<close> bytes.
\<close>

record notmuch_context_t =
  excluded_tags :: "char list"

text \<open>
  \<open>notmuchfs_init\<close>. \<open>heap\<close> is what \<open>malloc\<close> returned for the buffer, \<open>popen_out\<close> the
  output of \<open>notmuch config get search.exclude_tags\<close> (\<open>None\<close> when \<open>popen\<close> fails).
  The result is \<open>None\<close> for \<open>NULL\<close>.
\<close>

definition notmuchfs_init ::
  "bool \<Rightarrow> bool \<Rightarrow> char list \<Rightarrow> char list option \<Rightarrow> notmuch_context_t option" where
  "notmuchfs_init chdir_ok mutex_ok heap popen_out =
     (if \<not> chdir_ok then None
      else if \<not> mutex_ok then None
      else
        let buf0 = heap[0 := NUL]
        in case popen_out of
          None \<Rightarrow> Some \<lparr>excluded_tags = buf0\<rparr>
        | Some out \<Rightarrow>
            let bytes_read = min (length out) EXCLUDED_TAGS_MAX_LENGTH;
                buf1 = take bytes_read out @ drop bytes_read buf0
            in Some \<lparr>excluded_tags =
                       (if bytes_read > 0 then buf1[bytes_read - 1 := NUL] else buf1)\<rparr>)"

text \<open>
  \<open>strtok\<close> of the C library on the buffer \<open>mem\<close>, continuing at position \<open>pos\<close> with the
  single delimiter \<open>delim\<close>: skip delimiters; at the NUL there is no token; otherwise the
  token runs to the next delimiter, which is overwritten with NUL, or to the NUL. The
  result is the buffer, the position saved for the next call and the token.
\<close>

definition strtok :: "char list \<Rightarrow> nat \<Rightarrow> char \<Rightarrow> char list \<times> nat \<times> string option" where
  "strtok mem pos delim =
     (let start = pos + length (takeWhile (\<lambda>c. c = delim) (drop pos mem))
      in if start \<ge> length mem \<or> mem ! start = NUL then (mem, start, None)
         else
           let token = takeWhile (\<lambda>c. c \<noteq> delim \<and> c \<noteq> NUL) (drop start mem);
               stop = start + length token
           in if stop < length mem \<and> mem ! stop = delim
              then (mem[stop := NUL], stop + 1, Some token)
              else (mem, stop, Some token))"

text \<open>The loop of \<open>notmuchfs_opendir\<close> that registers the excluded tags on the query.\<close>

function exclude_loop :: "char list \<Rightarrow> nat \<Rightarrow> query \<Rightarrow> char list \<times> query" where
  "exclude_loop mem pos q =
     (case strtok mem pos CHR 0x0A of
        (mem1, pos1, None) \<Rightarrow> (mem1, q)
      | (mem1, pos1, Some exclude_tag) \<Rightarrow>
          exclude_loop mem1 pos1 (q\<lparr>tag_excludes := tag_excludes q @ [exclude_tag]\<rparr>))"
  by pat_completeness auto
termination
proof (relation "measure (\<lambda>(mem, pos, q). Suc (length mem) - pos)")
  show "wf (measure (\<lambda>(mem, pos, q). Suc (length mem) - pos))"
    by simp
next
  fix mem :: "char list" and pos :: nat and q :: query
    and x mem1 y pos1 tok exclude_tag
  assume a: "(mem1, y) = strtok mem pos CHR 0x0A" "(pos1, tok) = y" "tok = Some exclude_tag"
  define start where "start = pos + length (takeWhile (\<lambda>c. c = CHR 0x0A) (drop pos mem))"
  define token where "token = takeWhile (\<lambda>c. c \<noteq> CHR 0x0A \<and> c \<noteq> NUL) (drop start mem)"
  from a have s: "strtok mem pos CHR 0x0A = (mem1, pos1, Some exclude_tag)"
    by simp
  then have lt: "start < length mem"
    by (simp add: strtok_def Let_def start_def split: if_splits)
  have "length (takeWhile (\<lambda>c. c = CHR 0x0A) (drop pos mem)) \<le> length (drop pos mem)"
    by (rule length_takeWhile_le)
  then have "pos \<le> start"
    by (simp add: start_def)
  have "length token \<le> length (drop start mem)"
    unfolding token_def by (rule length_takeWhile_le)
  then have "start + length token \<le> length mem"
    using lt by simp
  from s lt have "length mem1 = length mem \<and> start + length token \<le> pos1"
    by (auto simp: strtok_def Let_def start_def[symmetric] token_def[symmetric]
        split: if_splits)
  moreover have "token \<noteq> []"
  proof -
    have "mem ! start \<noteq> NUL"
      using s by (auto simp: strtok_def Let_def start_def[symmetric] split: if_splits)
    moreover have "mem ! start \<noteq> CHR 0x0A"
    proof -
      let ?k = "length (takeWhile (\<lambda>c. c = CHR 0x0A) (drop pos mem))"
      have "?k < length (drop pos mem)"
        using lt by (simp add: start_def)
      then have "\<not> (drop pos mem ! ?k = CHR 0x0A)"
        by (rule nth_length_takeWhile)
      then show ?thesis
        using lt by (simp add: start_def)
    qed
    moreover have "drop start mem = mem ! start # drop (Suc start) mem"
      using lt by (simp add: Cons_nth_drop_Suc)
    ultimately show ?thesis
      by (simp add: token_def)
  qed
  ultimately have "pos < pos1"
    using \<open>pos \<le> start\<close> by (cases token) auto
  moreover have "pos < Suc (length mem)"
    using \<open>pos \<le> start\<close> lt by simp
  ultimately show "((mem1, pos1, q\<lparr>tag_excludes := tag_excludes q @ [exclude_tag]\<rparr>), mem, pos, q)
        \<in> measure (\<lambda>(mem, pos, q). Suc (length mem) - pos)"
    using \<open>length mem1 = length mem \<and> start + length token \<le> pos1\<close> by simp
qed

declare exclude_loop.simps [simp del]

datatype opendir_type_t =
    OPENDIR_TYPE_EMPTY_DIR
  | OPENDIR_TYPE_MAIL_DIR
  | OPENDIR_TYPE_BACKING_DIR
  | OPENDIR_TYPE_NOTMUCH_QUERY

text \<open>
  The handle of \<open>opendir\<close>. \<open>p_messages\<close> is the iterator: the messages still to come, the
  current one first. The directory stream of a backing directory is left out. The C code
  leaves the fields of the other types uninitialised and never reads them.
\<close>

record opendir_t =
  dir_type :: opendir_type_t
  p_query :: "query option"
  p_messages :: "message list"
  next_offset :: int

definition new_dir_fd :: "opendir_type_t \<Rightarrow> opendir_t" where
  "new_dir_fd t = \<lparr>dir_type = t, p_query = None, p_messages = [], next_offset = 0\<rparr>"

text \<open>
  The loop of \<open>notmuchfs_opendir\<close> that follows symbolic links. It ends with \<open>res\<close> and the
  name reached; a chain of links that never ends gives \<open>None\<close>.
\<close>

partial_function (option) dereference :: "world \<Rightarrow> string \<Rightarrow> (int \<times> string) option" where
  "dereference w trans_name =
     (case lstat_r w trans_name of
        Inl err \<Rightarrow> Some (0, trans_name)
      | Inr stbuf \<Rightarrow>
          if S_ISLNK (st_mode stbuf) then
            (case readlink_r w trans_name of
               Inl err \<Rightarrow> Some (- err, trans_name)
             | Inr link_name \<Rightarrow> dereference w (take PATH_MAX link_name))
          else Some (0, trans_name))"

text \<open>
  \<open>notmuchfs_opendir\<close>. The result is \<open>Inl\<close> the negative \<open>errno\<close> or \<open>Inr\<close> the handle,
  together with the context, whose buffer \<open>strtok\<close> has written to.
\<close>

definition opendir_result :: "int \<Rightarrow> opendir_t \<Rightarrow> (int + opendir_t) outcome" where
  "opendir_result res dir_fd = Return (if res = 0 then Inr dir_fd else Inl res)"

definition notmuchfs_opendir ::
  "world \<Rightarrow> notmuch_context_t \<Rightarrow> string
     \<Rightarrow> ((int + opendir_t) outcome \<times> notmuch_context_t) option" where
  "notmuchfs_opendir w p_ctx path =
     (if path = ''/'' then
        Some (opendir_result 0 (new_dir_fd OPENDIR_TYPE_BACKING_DIR), p_ctx)
      else case strrchr_from path 1 CHR ''/'' of
        None \<Rightarrow> Some (opendir_result 0 (new_dir_fd OPENDIR_TYPE_MAIL_DIR), p_ctx)
      | Some last_slash \<Rightarrow>
          if drop (last_slash + 1) path = ''new'' \<or> drop (last_slash + 1) path = ''tmp''
          then Some (opendir_result 0 (new_dir_fd OPENDIR_TYPE_EMPTY_DIR), p_ctx)
          else if drop (last_slash + 1) path = ''cur'' then
            (case dereference w (take (last_slash - 1) (drop 1 path)) of
               None \<Rightarrow> None
             | Some (res, trans_name) \<Rightarrow>
                 (case database_open (db_open_r w) (db_needs_upgrade w) of
                    Exits \<Rightarrow> Some (Exit 1, p_ctx)
                  | Retrying \<Rightarrow> Some (Blocked, p_ctx)
                  | Opened \<Rightarrow>
                      let dir_fd = (new_dir_fd OPENDIR_TYPE_NOTMUCH_QUERY)\<lparr>next_offset := 1\<rparr>
                      in if query_create_r w trans_name then
                           let (mem, q) = exclude_loop (excluded_tags p_ctx) 0
                                  \<lparr>query_string = trans_name, tag_excludes = [],
                                   omit_excluded_all = False\<rparr>;
                               q = q\<lparr>omit_excluded_all := True\<rparr>;
                               p_ctx = p_ctx\<lparr>excluded_tags := mem\<rparr>;
                               (status, messages) = search_messages_r w q
                           in if status \<noteq> NOTMUCH_STATUS_SUCCESS
                              then Some (opendir_result (- EIO) dir_fd, p_ctx)
                              else Some (opendir_result res
                                     (dir_fd\<lparr>p_query := Some q, p_messages := messages\<rparr>),
                                     p_ctx)
                         else Some (opendir_result (- EIO) dir_fd, p_ctx)))
          else Some (opendir_result (- ENOENT) (new_dir_fd OPENDIR_TYPE_BACKING_DIR), p_ctx))"

text \<open>
  The \<open>readdir\<close> buffer and the filler of the FUSE library, after \<open>fuse.h\<close>: the filler
  returns 1 when the buffer is full and 0 otherwise. With a non-zero offset an entry is
  taken only if it fits in the \<open>needlen\<close> bytes the caller asked for; with offset 0 the
  library grows the buffer and takes every entry.
\<close>

record dirent =
  d_name :: string
  d_stat :: "stat option"
  d_off :: int

record dirbuf =
  contents :: "dirent list"
  used :: nat
  needlen :: nat

definition fuse_dirent_size :: "nat \<Rightarrow> nat" where
  "fuse_dirent_size namelen = ((24 + namelen + 7) div 8) * 8"

definition filler :: "dirbuf \<Rightarrow> string \<Rightarrow> stat option \<Rightarrow> int \<Rightarrow> dirbuf \<times> int" where
  "filler buf name stbuf off =
     (let newlen = used buf + fuse_dirent_size (length name);
          entry = \<lparr>d_name = name, d_stat = stbuf, d_off = off\<rparr>
      in if off \<noteq> 0 \<and> newlen > needlen buf then (buf, 1)
         else (buf\<lparr>contents := contents buf @ [entry], used := newlen\<rparr>, 0))"

definition fill_dir_with_message ::
  "world \<Rightarrow> opendir_t \<Rightarrow> message \<Rightarrow> dirbuf \<Rightarrow> int \<times> opendir_t \<times> dirbuf" where
  "fill_dir_with_message w dir_fd p_message buf =
     (case msg_filename p_message of
        None \<Rightarrow> (0, dir_fd, buf)
      | Some fname \<Rightarrow>
          (case stat_r w fname of
             Inr stbuf \<Rightarrow>
               let trans_name = string_replace (take (PATH_MAX - 1) fname) CHR ''/'' CHR ''#'';
                   stbuf1 = stbuf\<lparr>st_size := st_size stbuf + int MAX_XLABEL_LENGTH\<rparr>;
                   (buf1, full) = filler buf trans_name (Some stbuf1) (next_offset dir_fd);
                   dir_fd1 = dir_fd\<lparr>next_offset := next_offset dir_fd + 1\<rparr>
               in if full \<noteq> 0
                  then (INT_MAX, dir_fd1\<lparr>next_offset := next_offset dir_fd1 - 1\<rparr>, buf1)
                  else (0, dir_fd1, buf1)
           | Inl err \<Rightarrow>
               if err = ENOENT then (0, dir_fd, buf) else (- err, dir_fd, buf)))"

text \<open>
  The message loop of \<open>notmuchfs_readdir\<close>, on the iterator \<open>msgs\<close>: a full buffer stops
  the loop without moving the iterator; otherwise the iterator moves on and the loop
  continues while \<open>res\<close> is 0.
\<close>

fun query_loop ::
  "world \<Rightarrow> message list \<Rightarrow> opendir_t \<Rightarrow> dirbuf \<Rightarrow> int \<times> opendir_t \<times> dirbuf" where
  "query_loop w [] dir_fd buf = (0, dir_fd\<lparr>p_messages := []\<rparr>, buf)"
| "query_loop w (p_message # rest) dir_fd buf =
     (case fill_dir_with_message w dir_fd p_message buf of
        (res, dir_fd1, buf1) \<Rightarrow>
          if res = INT_MAX then (0, dir_fd1\<lparr>p_messages := p_message # rest\<rparr>, buf1)
          else if res = 0 then query_loop w rest dir_fd1 buf1
          else (res, dir_fd1\<lparr>p_messages := rest\<rparr>, buf1))"

text \<open>\<open>notmuchfs_readdir\<close> on a handle of type \<open>OPENDIR_TYPE_NOTMUCH_QUERY\<close>.\<close>

definition notmuchfs_readdir ::
  "world \<Rightarrow> opendir_t \<Rightarrow> dirbuf \<Rightarrow> int \<Rightarrow> int \<times> opendir_t \<times> dirbuf" where
  "notmuchfs_readdir w dir_fd buf offset_in =
     (if offset_in = 0 then
        let (buf1, r1) = filler buf ''.'' None (next_offset dir_fd);
            dir_fd1 = dir_fd\<lparr>next_offset := next_offset dir_fd + 1\<rparr>;
            (buf2, r2) = filler buf1 ''..'' None (next_offset dir_fd1);
            dir_fd2 = dir_fd1\<lparr>next_offset := next_offset dir_fd1 + 1\<rparr>
        in query_loop w (p_messages dir_fd2) dir_fd2 buf2
      else if offset_in + 1 \<noteq> next_offset dir_fd then (- EDOM, dir_fd, buf)
      else query_loop w (p_messages dir_fd) dir_fd buf)"


section \<open>rename\<close>

text \<open>
  \<open>NOTMUCHFS_DEBUG\<close> is defined as 0, so \<open>LOG_TRACE\<close> expands to nothing: a \<open>LOG_TRACE\<close>
  statement prints only in a build with \<open>NOTMUCHFS_DEBUG\<close> set, where it is a \<open>printf\<close>.
\<close>

definition NOTMUCHFS_DEBUG :: bool where
  "NOTMUCHFS_DEBUG = False"

text \<open>
  What \<open>notmuchfs_rename\<close> does to the backing store and to the index, in order, and what
  it prints on the way.
\<close>

datatype call =
    Sys_rename string string
  | Database_open bool
  | Database_close
  | Begin_atomic
  | Add_message string
  | Remove_message string
  | Find_message string
  | Maildir_flags_to_tags string
  | Add_tag string string
  | End_atomic
  | Printf string

definition LOG_TRACE :: "string \<Rightarrow> call list" where
  "LOG_TRACE text = (if NOTMUCHFS_DEBUG then [Printf text] else [])"

text \<open>
  The checks of \<open>notmuchfs_rename\<close> before anything is renamed. \<open>Pass_through\<close>: neither
  name has a \<open>#\<close>. \<open>Accepted k F T\<close>: the rename goes on with \<open>mutt_2476_workaround = k\<close>
  and the decoded names \<open>F\<close> and \<open>T\<close>. \<open>Crashed\<close>: the code reads through a pointer made from
  the \<open>NULL\<close> that \<open>strrchr\<close> returned for a name without a second \<open>/\<close>.
\<close>

datatype validation =
    Pass_through
  | Rejected
  | Crashed
  | Accepted nat string string

text \<open>
  The workaround test, reached when the bytes before the last \<open>#\<close> differ. When
  \<open>last_slash_from\<close> is \<open>NULL\<close> the difference \<open>last_slash_from - from\<close> is negative and the
  test \<open>>= 3\<close> fails. The result is \<open>None\<close> when \<open>last_slash_to - 3\<close> is read with
  \<open>last_slash_to = NULL\<close>.
\<close>

definition workaround_case ::
  "string \<Rightarrow> string \<Rightarrow> nat option \<Rightarrow> nat option \<Rightarrow> nat option" where
  "workaround_case from to last_slash_from last_slash_to =
     (case last_slash_from of
        None \<Rightarrow> Some 0
      | Some lsf \<Rightarrow>
          if lsf \<ge> 3 \<and> take (lsf - 3) from = take (lsf - 3) to then
            if three_before from lsf ''cur'' then
              (case last_slash_to of
                 None \<Rightarrow> None
               | Some lst \<Rightarrow> if three_before to lst ''new'' then Some 1 else Some 0)
            else if three_before from lsf ''new'' then
              (case last_slash_to of
                 None \<Rightarrow> None
               | Some lst \<Rightarrow> if three_before to lst ''cur'' then Some 2 else Some 0)
            else Some 0
          else Some 0)"

definition trans_names ::
  "nat \<Rightarrow> string \<Rightarrow> string \<Rightarrow> nat option \<Rightarrow> nat option \<Rightarrow> validation" where
  "trans_names mutt_2476_workaround from to last_slash_from last_slash_to =
     (case last_slash_from of
        None \<Rightarrow> Crashed
      | Some lsf \<Rightarrow>
          (case last_slash_to of
             None \<Rightarrow> Crashed
           | Some lst \<Rightarrow>
               Accepted mutt_2476_workaround
                 (string_replace (take (PATH_MAX - 1) (drop (lsf + 1) from)) CHR ''#'' CHR ''/'')
                 (string_replace (take (PATH_MAX - 1) (drop (lst + 1) to)) CHR ''#'' CHR ''/'')))"

definition rename_validate :: "bool \<Rightarrow> string \<Rightarrow> string \<Rightarrow> validation" where
  "rename_validate mutt_2476_workaround_allowed from to =
     (let last_pslash_from = strrchr_from from 1 CHR ''#'';
          last_pslash_to = strrchr_from to 1 CHR ''#'';
          last_slash_from = strrchr_from from 1 CHR ''/'';
          last_slash_to = strrchr_from to 1 CHR ''/''
      in case last_pslash_from of
        None \<Rightarrow> (case last_pslash_to of None \<Rightarrow> Pass_through | Some pt \<Rightarrow> Rejected)
      | Some pf \<Rightarrow>
          (case last_pslash_to of
             None \<Rightarrow> Rejected
           | Some pt \<Rightarrow>
               if pf \<noteq> pt then Rejected
               else if take pf from \<noteq> take pf to then
                 (if mutt_2476_workaround_allowed then
                    (case workaround_case from to last_slash_from last_slash_to of
                       None \<Rightarrow> Crashed
                     | Some k \<Rightarrow>
                         if k = 0 then Rejected
                         else trans_names k from to last_slash_from last_slash_to)
                  else Rejected)
               else trans_names 0 from to last_slash_from last_slash_to))"

text \<open>
  The part of \<open>notmuchfs_rename\<close> that renames the message in the index. Its two
  warnings are \<open>LOG_TRACE\<close> statements; the other \<open>LOG_TRACE\<close> statements of the function
  announce the call that follows and are left out, as they too expand to nothing.
\<close>

definition rename_in_database ::
  "bool \<Rightarrow> world \<Rightarrow> nat \<Rightarrow> string \<Rightarrow> string \<Rightarrow> int outcome \<times> call list" where
  "rename_in_database mutt_2476_workaround_allowed w mutt_2476_workaround
       trans_name_from trans_name_to =
     (case database_open (db_open_r w) (db_needs_upgrade w) of
        Exits \<Rightarrow> (Exit 1, [])
      | Retrying \<Rightarrow> (Blocked, [])
      | Opened \<Rightarrow>
          if begin_atomic_r w \<noteq> NOTMUCH_STATUS_SUCCESS
          then (Return (- EIO), [Database_open True, Begin_atomic, Database_close])
          else
            let added =
                  (if trans_name_from \<noteq> trans_name_to then
                     (if add_message_r w trans_name_to \<noteq> NOTMUCH_STATUS_DUPLICATE_MESSAGE_ID
                      then [Add_message trans_name_to] @
                           LOG_TRACE (''WARNING: Did not find message in database: '' @
                                      trans_name_to @ [CHR 0x0A])
                      else [Add_message trans_name_to, Remove_message trans_name_from] @
                           (if remove_message_r w trans_name_from
                                 \<noteq> NOTMUCH_STATUS_DUPLICATE_MESSAGE_ID
                            then LOG_TRACE (''WARNING: Did not find old message in database: '' @
                                            trans_name_from @ [CHR 0x0A])
                            else []))
                   else []);
                calls = [Database_open True, Begin_atomic] @ added @ [Find_message trans_name_to];
                (status, p_message) = find_message_r w trans_name_to;
                res = (if end_atomic_r w \<noteq> NOTMUCH_STATUS_SUCCESS then - EIO else 0)
            in if status = NOTMUCH_STATUS_SUCCESS then
                 (case p_message of
                    None \<Rightarrow> (Abort, calls)
                  | Some msg \<Rightarrow>
                      (Return res,
                       calls @ [Maildir_flags_to_tags trans_name_to] @
                       (if mutt_2476_workaround_allowed \<and> mutt_2476_workaround = 1
                        then [Add_tag trans_name_to ''unread''] else []) @
                       [End_atomic, Database_close]))
               else (Return res, calls @ [End_atomic, Database_close]))"

text \<open>
  \<open>notmuchfs_rename\<close>: the outcome and the calls made. The two \<open>assert\<close>s on the leading
  \<open>/\<close> come first.
\<close>

definition notmuchfs_rename ::
  "bool \<Rightarrow> world \<Rightarrow> string \<Rightarrow> string \<Rightarrow> int outcome \<times> call list" where
  "notmuchfs_rename mutt_2476_workaround_allowed w from to =
     (if take 1 from \<noteq> ''/'' then (Abort, [])
      else if take 1 to \<noteq> ''/'' then (Abort, [])
      else case rename_validate mutt_2476_workaround_allowed from to of
        Pass_through \<Rightarrow>
          (case rename_r w (drop 1 from) (drop 1 to) of
             None \<Rightarrow> (Return 0, [Sys_rename (drop 1 from) (drop 1 to)])
           | Some err \<Rightarrow> (Return (- err), [Sys_rename (drop 1 from) (drop 1 to)]))
      | Rejected \<Rightarrow> (Return (- ENOTSUP), [])
      | Crashed \<Rightarrow> (Segfault, [])
      | Accepted mutt_2476_workaround trans_name_from trans_name_to \<Rightarrow>
          (case rename_r w trans_name_from trans_name_to of
             Some err \<Rightarrow> (Return (- err), [Sys_rename trans_name_from trans_name_to])
           | None \<Rightarrow>
               (case rename_in_database mutt_2476_workaround_allowed w mutt_2476_workaround
                       trans_name_from trans_name_to of
                  (r, calls) \<Rightarrow> (r, Sys_rename trans_name_from trans_name_to # calls))))"


section \<open>Notions of the specification\<close>

text \<open>
  The name codec of the specification: \<open>encode\<close> replaces every \<open>/\<close> by \<open>#\<close>, \<open>decode\<close> every
  \<open>#\<close> by \<open>/\<close>. The program has no function of either name; it calls \<open>string_replace\<close>.
\<close>

definition encode :: "string \<Rightarrow> string" where
  "encode p = string_replace p CHR ''/'' CHR ''#''"

definition decode :: "string \<Rightarrow> string" where
  "decode t = string_replace t CHR ''#'' CHR ''/''"

text \<open>
  The last segment of a path as \<open>notmuchfs_open\<close> reads it: the whole name after the
  leading \<open>/\<close> when there is no second \<open>/\<close>, else what follows the last \<open>/\<close>, cut at
  \<open>PATH_MAX - 1\<close> bytes.
\<close>

definition last_segment :: "string \<Rightarrow> string" where
  "last_segment path =
     (case strrchr_from path 1 CHR ''/'' of
        None \<Rightarrow> drop 1 path
      | Some last_slash \<Rightarrow> take (PATH_MAX - 1) (drop (last_slash + 1) path))"

text \<open>The comma-joined tag list.\<close>

fun join_tags :: "string list \<Rightarrow> string" where
  "join_tags [] = []"
| "join_tags [t] = t"
| "join_tags (t # ts) = t @ CHR '','' # join_tags ts"

text \<open>
  When \<open>fill_string_with_tags\<close> keeps the tags in a region of \<open>len\<close> bytes, and the tag
  region and the header that \<open>notmuchfs_open\<close> then composes (proved below).
\<close>

definition tags_fit :: "nat \<Rightarrow> string list \<Rightarrow> bool" where
  "tags_fit len tags = (tags = [] \<or> length (join_tags tags) < len)"

definition tag_region :: "string list \<Rightarrow> string" where
  "tag_region tags =
     (if tags_fit (MAX_XLABEL_LENGTH - length XLABEL - 1) tags then join_tags tags
      else TAG_ERROR_STRING)"

definition x_label_header :: "string list \<Rightarrow> char list" where
  "x_label_header tags =
     XLABEL @ tag_region tags @ replicate (1014 - length (tag_region tags)) CHR '' ''
       @ [CHR 0x0A]"

text \<open>The entries \<open>.\<close> and \<open>..\<close> at the offsets \<open>off\<close> and \<open>off + 1\<close>.\<close>

definition dot_entries :: "int \<Rightarrow> dirent list" where
  "dot_entries off =
     [\<lparr>d_name = ''.'', d_stat = None, d_off = off\<rparr>,
      \<lparr>d_name = ''..'', d_stat = None, d_off = off + 1\<rparr>]"

text \<open>
  A sequence of \<open>readdir\<close> calls on one handle, each with a fresh buffer of \<open>n\<close> bytes that
  has room for the two dot entries: the handle reached and the entries the filler has
  taken so far.
\<close>

definition fresh_buf :: "nat \<Rightarrow> dirbuf" where
  "fresh_buf n = \<lparr>contents = [], used = 0, needlen = n\<rparr>"

inductive readdir_sequence :: "world \<Rightarrow> opendir_t \<Rightarrow> opendir_t \<Rightarrow> dirent list \<Rightarrow> bool"
  for w :: world and dir_fd0 :: opendir_t where
  opened: "readdir_sequence w dir_fd0 dir_fd0 []"
| readdir:
    "readdir_sequence w dir_fd0 dir_fd out \<Longrightarrow>
     64 \<le> n \<Longrightarrow>
     notmuchfs_readdir w dir_fd (fresh_buf n) offset_in = (res, dir_fd1, buf1) \<Longrightarrow>
     readdir_sequence w dir_fd0 dir_fd1 (out @ contents buf1)"

section \<open>An example mount\<close>

text \<open>
  The backing directory holds the link \<open>inbox\<close> to the query \<open>tag:inbox\<close> and the file
  \<open>dir/file\<close>. The mail files \<open>/m/a/cur/1:2,\<close> (12 bytes, indexed with the tags \<open>inbox\<close> and
  \<open>unread\<close>) and \<open>/m/b/cur/2:2,S\<close> (5 bytes, not in the index) exist.
\<close>

definition file_a :: string where
  "file_a = ''/m/a/cur/1:2,''"

definition file_b :: string where
  "file_b = ''/m/b/cur/2:2,S''"

definition body_a :: "char list" where
  "body_a = ''From: x'' @ [CHR 0x0A, CHR 0x0A] @ ''hi'' @ [CHR 0x0A]"

definition regular :: "nat \<Rightarrow> int \<Rightarrow> stat" where
  "regular ino n = \<lparr>st_ino = ino, st_mode = 0x81A4, st_size = n\<rparr>"

definition msg_a :: message where
  "msg_a = \<lparr>msg_filename = Some file_a, msg_tags = [''inbox'', ''unread'']\<rparr>"

definition example_stat :: "string \<Rightarrow> int + stat" where
  "example_stat name =
     (if name = file_a then Inr (regular 11 12)
      else if name = file_b then Inr (regular 12 5)
      else if name = ''dir/file'' then Inr (regular 13 7)
      else if name = ''inbox'' then Inr \<lparr>st_ino = 14, st_mode = 0xA1FF, st_size = 9\<rparr>
      else Inl ENOENT)"

definition example_world :: world where
  "example_world =
     \<lparr>stat_r = (\<lambda>name. if name = ''inbox'' then Inl ENOENT else example_stat name),
      lstat_r = example_stat,
      readlink_r = (\<lambda>name. if name = ''inbox'' then Inr ''tag:inbox'' else Inl 22),
      open_r = (\<lambda>name. if name = file_a then Inr 3 else if name = file_b then Inr 4
                         else Inl ENOENT),
      pread_r = (\<lambda>fd count off. if fd = 3 then Inr (take count (drop (nat off) body_a))
                                  else Inl 9),
      rename_r = (\<lambda>old new. None),
      db_open_r = [NOTMUCH_STATUS_XAPIAN_EXCEPTION, NOTMUCH_STATUS_SUCCESS],
      db_needs_upgrade = False,
      query_create_r = (\<lambda>q. True),
      search_messages_r = (\<lambda>q. (NOTMUCH_STATUS_SUCCESS, [msg_a])),
      find_message_r = (\<lambda>name. (NOTMUCH_STATUS_SUCCESS,
                                 if name = file_a then Some msg_a else None)),
      begin_atomic_r = NOTMUCH_STATUS_SUCCESS,
      add_message_r = (\<lambda>name. NOTMUCH_STATUS_DUPLICATE_MESSAGE_ID),
      remove_message_r = (\<lambda>name. NOTMUCH_STATUS_DUPLICATE_MESSAGE_ID),
      add_tag_r = (\<lambda>name tag. NOTMUCH_STATUS_SUCCESS),
      end_atomic_r = NOTMUCH_STATUS_SUCCESS\<rparr>"

text \<open>The context after \<open>notmuchfs_init\<close> when two tags are excluded.\<close>

definition example_ctx :: notmuch_context_t where
  "example_ctx =
     \<lparr>excluded_tags = ''deleted'' @ [CHR 0x0A] @ ''spam'' @ replicate 116 NUL\<rparr>"

text \<open>The two mail files as they appear under \<open>/inbox/cur\<close>, and the handle of the first.\<close>

definition virtual_a :: string where
  "virtual_a = ''/inbox/cur/#m#a#cur#1:2,''"

definition virtual_b :: string where
  "virtual_b = ''/inbox/cur/#m#b#cur#2:2,S''"

definition handle_a :: open_t where
  "handle_a = \<lparr>fh = 3, x_label = x_label_header [''inbox'', ''unread'']\<rparr>"

definition handle_b :: open_t where
  "handle_b = \<lparr>fh = 4, x_label = replicate MAX_XLABEL_LENGTH NUL\<rparr>"

text \<open>
  The context after the first \<open>opendir\<close> of \<open>/inbox/cur\<close>, the query handle that an
  \<open>opendir\<close> returns when it has registered the tags \<open>ts\<close>, the entry of the indexed mail
  file at an offset, and a buffer of 64 bytes filled by the two dot entries.
\<close>

definition example_ctx1 :: notmuch_context_t where
  "example_ctx1 = \<lparr>excluded_tags = ''deleted'' @ [NUL] @ ''spam'' @ replicate 116 NUL\<rparr>"

definition example_query :: "string list \<Rightarrow> query" where
  "example_query tags =
     \<lparr>query_string = ''tag:inbox'', tag_excludes = tags, omit_excluded_all = True\<rparr>"

definition example_dir_fd :: "string list \<Rightarrow> opendir_t" where
  "example_dir_fd tags =
     \<lparr>dir_type = OPENDIR_TYPE_NOTMUCH_QUERY, p_query = Some (example_query tags),
      p_messages = [msg_a], next_offset = 1\<rparr>"

definition entry_a :: "int \<Rightarrow> dirent" where
  "entry_a off = \<lparr>d_name = ''#m#a#cur#1:2,'', d_stat = Some (regular 11 1036), d_off = off\<rparr>"

definition dots_buf :: dirbuf where
  "dots_buf = \<lparr>contents = dot_entries 1, used = 64, needlen = 64\<rparr>"

text \<open>
  For renames: the mail file with the flag \<open>S\<close> added, the names under \<open>cur\<close> and \<open>new\<close>, and
  a mount whose index finds a message under every file name.
\<close>

definition file_a_seen :: string where
  "file_a_seen = ''/m/a/cur/1:2,S''"

definition virtual_a_seen :: string where
  "virtual_a_seen = ''/inbox/cur/#m#a#cur#1:2,S''"

definition virtual_a_new :: string where
  "virtual_a_new = ''/inbox/new/#m#a#cur#1:2,''"

definition rename_world :: world where
  "rename_world = example_world\<lparr>find_message_r := (\<lambda>name. (NOTMUCH_STATUS_SUCCESS, Some msg_a))\<rparr>"

text \<open>The same mount with an index that answers every add with plain success.\<close>

definition success_world :: world where
  "success_world = rename_world\<lparr>add_message_r := (\<lambda>name. NOTMUCH_STATUS_SUCCESS)\<rparr>"

section \<open>Proofs\<close>


subsection \<open>Strings and the name codec\<close>

lemma string_replace_map: "string_replace s a b = map (\<lambda>c. if c = a then b else c) s"
  by (induction s) simp_all

lemma string_replace_id: "a \<notin> set s \<Longrightarrow> string_replace s a b = s"
  by (induction s) auto

lemma string_replace_length [simp]: "length (string_replace s a b) = length s"
  by (simp add: string_replace_map)

lemma decode_encode: "CHR ''#'' \<notin> set p \<Longrightarrow> decode (encode p) = p"
  unfolding decode_def encode_def by (induction p) auto

lemma encode_decode: "CHR ''/'' \<notin> set t \<Longrightarrow> encode (decode t) = t"
  unfolding decode_def encode_def by (induction t) auto

lemma encode_no_slash: "CHR ''/'' \<notin> set (encode p)"
  unfolding encode_def by (induction p) auto

lemma encode_hash_iff: "CHR ''#'' \<in> set (encode p) \<longleftrightarrow> CHR ''/'' \<in> set p \<or> CHR ''#'' \<in> set p"
  unfolding encode_def by (induction p) auto

lemma strchr_None_iff: "strchr s c = None \<longleftrightarrow> c \<notin> set s"
  by (induction s) auto

lemma strrchr_None_iff: "strrchr s c = None \<longleftrightarrow> c \<notin> set s"
  by (induction s) (auto split: option.splits)

lemma strchr_append:
  "strchr (xs @ ys) c =
     (case strchr xs c of Some i \<Rightarrow> Some i
      | None \<Rightarrow> map_option (\<lambda>k. k + length xs) (strchr ys c))"
  by (induction xs) (auto split: option.splits simp: option.map_comp comp_def option.map_ident)

lemma strrchr_append:
  "strrchr (xs @ ys) c =
     (case strrchr ys c of Some i \<Rightarrow> Some (i + length xs)
      | None \<Rightarrow> strrchr xs c)"
  by (induction xs) (auto split: option.splits)

lemma strrchr_from_virtual:
  assumes "CHR ''/'' \<notin> set e"
  shows "strrchr_from (CHR ''/'' # q @ ''/cur/'' @ e) 1 CHR ''/'' = Some (length q + 5)"
proof -
  have "strrchr (q @ ''/cur/'' @ e) CHR ''/'' = strrchr ((q @ ''/cur'') @ CHR ''/'' # e) CHR ''/''"
    by simp
  also have "\<dots> = Some (length q + 4)"
    using assms by (subst strrchr_append) (simp add: strrchr_None_iff[THEN iffD2])
  finally show ?thesis by (simp add: strrchr_from_def)
qed

lemma strchr_from_first:
  assumes "CHR ''/'' \<notin> set q"
  shows "strchr_from (CHR ''/'' # q @ CHR ''/'' # r) 1 CHR ''/'' = Some (length q + 1)"
  using assms by (simp add: strchr_from_def strchr_append strchr_None_iff[THEN iffD2])

lemma int_cast_small: "n < 2 ^ 31 \<Longrightarrow> int_cast n = int n"
  unfolding int_cast_def
  by (simp add: signed_of_nat signed_take_bit_int_eq_self)

subsection \<open>The header\<close>

lemma join_tags_Cons: "join_tags (t # ts) = (if ts = [] then t else t @ CHR '','' # join_tags ts)"
  by (cases ts) simp_all

lemma memcpy_length: "pos + length src \<le> length mem \<Longrightarrow> length (memcpy mem pos src) = length mem"
  by (simp add: memcpy_def)

lemma memcpy_take: "k \<le> pos \<Longrightarrow> pos \<le> length mem \<Longrightarrow> take k (memcpy mem pos src) = take k mem"
  by (simp add: memcpy_def min_def)

lemma memcpy_take_end:
  "pos + length src \<le> length mem \<Longrightarrow>
   take (pos + length src) (memcpy mem pos src) = take pos mem @ src"
  by (cases src) (simp_all add: memcpy_def min_def)

lemma XLABEL_len: "length XLABEL = 9"
  by (simp add: XLABEL_def)

lemma TAG_ERROR_STRING_len: "length TAG_ERROR_STRING = 5"
  by (simp add: TAG_ERROR_STRING_def)

lemma memcpy_append_comma:
  assumes "pos + length a < length mem"
  shows "memcpy ((memcpy mem pos a)[pos + length a := c]) (Suc (pos + length a)) b
         = memcpy mem pos (a @ c # b)"
proof -
  have "(memcpy mem pos a)[pos + length a := c]
        = take pos mem @ a @ (drop (pos + length a) mem)[0 := c]"
    using assms by (simp add: memcpy_def list_update_append)
  also have "(drop (pos + length a) mem)[0 := c] = c # drop (Suc (pos + length a)) mem"
    using assms by (cases "drop (pos + length a) mem") (auto simp: drop_Suc dest: arg_cong[where f=tl] simp: tl_drop)
  finally show ?thesis using assms
    by (simp add: memcpy_def min_def ac_simps)
qed

lemma fill_tags_loop_fits:
  "tags \<noteq> [] \<Longrightarrow> buf_in \<le> buf \<Longrightarrow> buf_in + len \<le> length mem \<Longrightarrow>
   (buf - buf_in) + length (join_tags tags) < len \<Longrightarrow>
   fill_tags_loop mem buf_in len tags buf
     = (memcpy mem buf (join_tags tags), buf + length (join_tags tags), False)"
proof (induction tags arbitrary: mem buf)
  case Nil
  then show ?case by simp
next
  case (Cons t ts)
  show ?case
  proof (cases "ts = []")
    case True
    with Cons.prems show ?thesis by simp
  next
    case False
    have j: "join_tags (t # ts) = t @ CHR '','' # join_tags ts"
      using False by (simp add: join_tags_Cons)
    let ?mem1 = "(memcpy mem buf t)[buf + length t := CHR '','']"
    have len1: "length ?mem1 = length mem"
      using Cons.prems j by (simp add: memcpy_length)
    have c1: "\<not> len - (buf - buf_in) \<le> length t"
      using Cons.prems j by simp
    have c2: "\<not> len - (buf + length t - buf_in) < 1"
      using Cons.prems j by simp
    have step: "fill_tags_loop mem buf_in len (t # ts) buf
                = fill_tags_loop ?mem1 buf_in len ts (buf + length t + 1)"
      using False c1 c2 by (simp add: Let_def)
    have ih: "fill_tags_loop ?mem1 buf_in len ts (buf + length t + 1)
              = (memcpy ?mem1 (buf + length t + 1) (join_tags ts),
                 buf + length t + 1 + length (join_tags ts), False)"
      using Cons.prems False j len1 by (intro Cons.IH) auto
    have "memcpy ?mem1 (buf + length t + 1) (join_tags ts) = memcpy mem buf (t @ CHR '','' # join_tags ts)"
      using memcpy_append_comma[of buf t mem "CHR '',''" "join_tags ts"] Cons.prems j by simp
    with step ih j show ?thesis by simp
  qed
qed

lemma fill_tags_loop_overflow:
  "tags \<noteq> [] \<Longrightarrow> buf_in \<le> buf \<Longrightarrow> buf_in + len \<le> length mem \<Longrightarrow>
   buf - buf_in \<le> len \<Longrightarrow>
   len \<le> (buf - buf_in) + length (join_tags tags) \<Longrightarrow>
   \<exists>mem' buf'. fill_tags_loop mem buf_in len tags buf = (mem', buf', True)
      \<and> length mem' = length mem \<and> take buf_in mem' = take buf_in mem"
proof (induction tags arbitrary: mem buf)
  case Nil
  then show ?case by simp
next
  case (Cons t ts)
  show ?case
  proof (cases "length t \<ge> len - (buf - buf_in)")
    case True
    then show ?thesis by simp
  next
    case fit: False
    show ?thesis
    proof (cases "ts = []")
      case True
      with Cons.prems fit show ?thesis by simp
    next
      case False
      have j: "join_tags (t # ts) = t @ CHR '','' # join_tags ts"
        using False by (simp add: join_tags_Cons)
      let ?mem1 = "(memcpy mem buf t)[buf + length t := CHR '','']"
      have len1: "length ?mem1 = length mem"
        using Cons.prems fit by (simp add: memcpy_length)
      have tk: "take buf_in ?mem1 = take buf_in mem"
        using Cons.prems fit by (simp add: memcpy_take)
      have c2: "\<not> len - (buf + length t - buf_in) < 1"
        using Cons.prems fit by arith
      have step: "fill_tags_loop mem buf_in len (t # ts) buf
                  = fill_tags_loop ?mem1 buf_in len ts (buf + length t + 1)"
        using False fit c2 by (simp add: Let_def)
      have "\<exists>mem' buf'. fill_tags_loop ?mem1 buf_in len ts (buf + length t + 1) = (mem', buf', True)
              \<and> length mem' = length ?mem1 \<and> take buf_in mem' = take buf_in ?mem1"
        using Cons.prems False j len1 fit by (intro Cons.IH) auto
      with step len1 tk show ?thesis by auto
    qed
  qed
qed

lemma fill_string_with_tags_fits:
  assumes "tags_fit len tags" "buf_in + len \<le> length mem"
  shows "fill_string_with_tags mem buf_in len tags
         = (memcpy mem buf_in (join_tags tags), length (join_tags tags))"
proof (cases "tags = []")
  case True
  then show ?thesis by (simp add: fill_string_with_tags_def memcpy_def)
next
  case False
  with assms have "fill_tags_loop mem buf_in len tags buf_in
     = (memcpy mem buf_in (join_tags tags), buf_in + length (join_tags tags), False)"
    by (intro fill_tags_loop_fits) (auto simp: tags_fit_def)
  then show ?thesis by (simp add: fill_string_with_tags_def)
qed

lemma fill_string_with_tags_overflow:
  assumes "\<not> tags_fit len tags" "buf_in + len \<le> length mem" "length TAG_ERROR_STRING \<le> len"
  shows "\<exists>mem'. fill_string_with_tags mem buf_in len tags = (mem', length TAG_ERROR_STRING)
          \<and> length mem' = length mem
          \<and> take (buf_in + length TAG_ERROR_STRING) mem' = take buf_in mem @ TAG_ERROR_STRING"
proof -
  from assms have "\<exists>mem' buf'. fill_tags_loop mem buf_in len tags buf_in = (mem', buf', True)
      \<and> length mem' = length mem \<and> take buf_in mem' = take buf_in mem"
    by (intro fill_tags_loop_overflow) (auto simp: tags_fit_def)
  then obtain mem1 buf1 where l: "fill_tags_loop mem buf_in len tags buf_in = (mem1, buf1, True)"
    and n: "length mem1 = length mem" and t: "take buf_in mem1 = take buf_in mem"
    by blast
  have "fill_string_with_tags mem buf_in len tags
        = (memcpy mem1 buf_in TAG_ERROR_STRING, length TAG_ERROR_STRING)"
    using l by (simp add: fill_string_with_tags_def)
  moreover have "length (memcpy mem1 buf_in TAG_ERROR_STRING) = length mem"
    using n assms by (simp add: memcpy_length)
  moreover have "take (buf_in + length TAG_ERROR_STRING) (memcpy mem1 buf_in TAG_ERROR_STRING)
                 = take buf_in mem @ TAG_ERROR_STRING"
    using n t assms memcpy_take_end[of buf_in TAG_ERROR_STRING mem1] by simp
  ultimately show ?thesis by blast
qed

lemma pad_loop_eq:
  "buf \<le> MAX_XLABEL_LENGTH - 1 \<Longrightarrow> MAX_XLABEL_LENGTH - 1 \<le> length mem \<Longrightarrow>
   pad_loop mem buf
     = (take buf mem @ replicate (MAX_XLABEL_LENGTH - 1 - buf) CHR '' ''
          @ drop (MAX_XLABEL_LENGTH - 1) mem, MAX_XLABEL_LENGTH - 1)"
proof (induction mem buf rule: pad_loop.induct)
  case (1 mem buf)
  show ?case
  proof (cases "buf < MAX_XLABEL_LENGTH - 1")
    case True
    then have st: "pad_loop mem buf = pad_loop (mem[buf := CHR '' '']) (buf + 1)"
      by (subst pad_loop.simps) simp
    have ih: "pad_loop (mem[buf := CHR '' '']) (buf + 1) = (take (buf + 1) (mem[buf := CHR '' ''])
          @ replicate (MAX_XLABEL_LENGTH - 1 - (buf + 1)) CHR '' ''
          @ drop (MAX_XLABEL_LENGTH - 1) (mem[buf := CHR '' '']), MAX_XLABEL_LENGTH - 1)"
      using True "1.prems" by (intro "1.IH") auto
    have a: "take (buf + 1) (mem[buf := CHR '' '']) = take buf mem @ [CHR '' '']"
      using True "1.prems" by (simp add: take_Suc_conv_app_nth)
    have b: "drop (MAX_XLABEL_LENGTH - 1) (mem[buf := CHR '' '']) = drop (MAX_XLABEL_LENGTH - 1) mem"
      using True by simp
    have "MAX_XLABEL_LENGTH - 1 - buf = Suc (MAX_XLABEL_LENGTH - 1 - (buf + 1))"
      using True by simp
    then have c: "replicate (MAX_XLABEL_LENGTH - 1 - buf) CHR '' ''
               = CHR '' '' # replicate (MAX_XLABEL_LENGTH - 1 - (buf + 1)) CHR '' ''"
      by (simp only: replicate_Suc)
    show ?thesis unfolding st ih a b c by simp
  next
    case False
    with "1.prems" have "buf = MAX_XLABEL_LENGTH - 1" by simp
    then show ?thesis using "1.prems" by (subst pad_loop.simps) simp
  qed
qed

lemma tag_region_length: "length (tag_region tags) \<le> 1013"
  by (auto simp: tag_region_def tags_fit_def MAX_XLABEL_LENGTH_def XLABEL_len TAG_ERROR_STRING_len)

lemma compose_x_label_eq:
  assumes "length x0 = MAX_XLABEL_LENGTH"
  shows "compose_x_label x0 tags
         = Return (XLABEL @ tag_region tags
                   @ replicate (1014 - length (tag_region tags)) CHR '' '' @ [CHR 0x0A])"
proof -
  let ?len = "MAX_XLABEL_LENGTH - length XLABEL - 1"
  let ?mem1 = "memcpy x0 0 XLABEL"
  let ?n = "length (tag_region tags)"
  have len1: "length ?mem1 = 1024"
    using assms by (simp add: memcpy_length MAX_XLABEL_LENGTH_def XLABEL_len)
  have tk1: "take (length XLABEL) ?mem1 = XLABEL"
    using assms memcpy_take_end[of 0 XLABEL x0] by (simp add: MAX_XLABEL_LENGTH_def XLABEL_len)
  have n: "?n \<le> 1013" by (rule tag_region_length)
  have "\<exists>mem2. fill_string_with_tags ?mem1 (length XLABEL) ?len tags = (mem2, ?n)
          \<and> length mem2 = 1024
          \<and> take (length XLABEL + ?n) mem2 = XLABEL @ tag_region tags"
  proof (cases "tags_fit ?len tags")
    case True
    then have r: "tag_region tags = join_tags tags" by (simp add: tag_region_def)
    have "fill_string_with_tags ?mem1 (length XLABEL) ?len tags
         = (memcpy ?mem1 (length XLABEL) (join_tags tags), length (join_tags tags))"
      using True len1 by (intro fill_string_with_tags_fits) (simp_all add: MAX_XLABEL_LENGTH_def XLABEL_len)
    moreover have "length (memcpy ?mem1 (length XLABEL) (join_tags tags)) = 1024"
      using len1 n r by (subst memcpy_length) (simp_all add: XLABEL_len)
    moreover have "take (length XLABEL + length (join_tags tags)) (memcpy ?mem1 (length XLABEL) (join_tags tags))
        = XLABEL @ join_tags tags"
      using tk1 len1 n r memcpy_take_end[of "length XLABEL" "join_tags tags" ?mem1]
      by (simp add: XLABEL_len)
    ultimately show ?thesis using r by simp
  next
    case False
    then have r: "tag_region tags = TAG_ERROR_STRING" by (simp add: tag_region_def)
    have "\<exists>mem'. fill_string_with_tags ?mem1 (length XLABEL) ?len tags = (mem', length TAG_ERROR_STRING)
          \<and> length mem' = length ?mem1
          \<and> take (length XLABEL + length TAG_ERROR_STRING) mem' = take (length XLABEL) ?mem1 @ TAG_ERROR_STRING"
      using False len1 by (intro fill_string_with_tags_overflow)
        (simp_all add: MAX_XLABEL_LENGTH_def XLABEL_len TAG_ERROR_STRING_len)
    then show ?thesis using len1 tk1 r by simp
  qed
  then obtain mem2 where f: "fill_string_with_tags ?mem1 (length XLABEL) ?len tags = (mem2, ?n)"
    and len2: "length mem2 = 1024"
    and tk2: "take (length XLABEL + ?n) mem2 = XLABEL @ tag_region tags"
    by blast
  have p: "pad_loop mem2 (length XLABEL + ?n)
     = (take (length XLABEL + ?n) mem2
          @ replicate (1014 - ?n) CHR '' '' @ drop 1023 mem2, 1023)"
    using n len2 pad_loop_eq[of "length XLABEL + ?n" mem2]
    by (simp add: MAX_XLABEL_LENGTH_def XLABEL_len)
  have d: "drop 1023 mem2 = [mem2 ! 1023]"
  proof -
    have "drop 1023 mem2 = mem2 ! 1023 # drop (Suc 1023) mem2"
      using len2 by (intro Cons_nth_drop_Suc[symmetric]) simp
    then show ?thesis using len2 by simp
  qed
  have l: "length (XLABEL @ tag_region tags @ replicate (1014 - ?n) CHR '' '') = 1023"
    using n by (simp add: XLABEL_len)
  have u: "((XLABEL @ tag_region tags @ replicate (1014 - ?n) CHR '' '') @ [mem2 ! 1023])[1023 := CHR 0x0A]
        = (XLABEL @ tag_region tags @ replicate (1014 - ?n) CHR '' '') @ [CHR 0x0A]"
    using list_update_length[of "XLABEL @ tag_region tags @ replicate (1014 - ?n) CHR '' ''"
        "mem2 ! 1023" "[]" "CHR 0x0A"]
    by (simp only: l)
  have "compose_x_label x0 tags
        = Return ((take (length XLABEL + ?n) mem2
          @ replicate (1014 - ?n) CHR '' '' @ drop 1023 mem2)[1023 := CHR 0x0A])"
    using f p by (simp add: compose_x_label_def Let_def MAX_XLABEL_LENGTH_def XLABEL_len TAG_ERROR_STRING_len)
  then show ?thesis using u by (simp add: tk2 d)
qed

lemma x_label_header_length: "length (x_label_header tags) = 1024"
  using tag_region_length[of tags] by (simp add: x_label_header_def XLABEL_len)

lemma compose_x_label_header:
  "compose_x_label (replicate MAX_XLABEL_LENGTH NUL) tags = Return (x_label_header tags)"
  by (simp add: compose_x_label_eq x_label_header_def)

lemma open_backing_Inr:
  "open_backing w p0 name = Return (Inr p) \<Longrightarrow>
   open_r w name = Inr (fh p) \<and> x_label p = x_label p0"
  by (auto simp: open_backing_def split: sum.splits)

lemma notmuchfs_open_Inr:
  assumes "notmuchfs_open w path flags = Return (Inr p)"
    and "strrchr_from path 1 CHR ''/'' = Some ls"
    and "t = take (PATH_MAX - 1) (drop (ls + 1) path)"
  shows "open_r w (decode t) = Inr (fh p) \<and>
         (if CHR ''#'' \<in> set t
          then fst (find_message_r w (decode t)) = NOTMUCH_STATUS_SUCCESS \<and>
               x_label p = (case snd (find_message_r w (decode t)) of
                              None \<Rightarrow> replicate MAX_XLABEL_LENGTH NUL
                            | Some msg \<Rightarrow> x_label_header (msg_tags msg))
          else x_label p = replicate MAX_XLABEL_LENGTH NUL)"
proof (cases "CHR ''#'' \<in> set t")
  case False
  then have "strchr t CHR ''#'' = None" by (simp add: strchr_None_iff)
  moreover have "decode t = t" using False by (simp add: decode_def string_replace_id)
  ultimately show ?thesis using assms False
    by (auto simp: notmuchfs_open_def Let_def split: if_splits dest!: open_backing_Inr)
next
  case True
  then obtain k where k: "strchr t CHR ''#'' = Some k"
    using strchr_None_iff[of t "CHR ''#''"] by (cases "strchr t CHR ''#''") auto
  obtain status p_message where f: "find_message_r w (decode t) = (status, p_message)"
    by (cases "find_message_r w (decode t)")
  from assms k f True show ?thesis
    by (auto simp: notmuchfs_open_def Let_def decode_def compose_x_label_header
        split: if_splits db_open_outcome.splits option.splits dest!: open_backing_Inr)
qed

subsection \<open>getattr, open and read\<close>

lemma strrchr_bounds: "strrchr s c = Some k \<Longrightarrow> k < length s \<and> s ! k = c"
  by (induction s arbitrary: k) (auto split: option.splits if_splits)

lemma strrchr_last: "strrchr s c = Some k \<Longrightarrow> i < length s \<Longrightarrow> s ! i = c \<Longrightarrow> i \<le> k"
proof (induction s arbitrary: k i)
  case Nil
  then show ?case by simp
next
  case (Cons x xs)
  show ?case
  proof (cases i)
    case 0
    then show ?thesis by simp
  next
    case (Suc j)
    with Cons.prems have j: "j < length xs" "xs ! j = c" by simp_all
    then have "c \<in> set xs" by (auto simp: in_set_conv_nth)
    then obtain k' where k': "strrchr xs c = Some k'"
      using strrchr_None_iff[of xs c] by (cases "strrchr xs c") auto
    with Cons.prems have "k = Suc k'" by simp
    moreover have "j \<le> k'" using Cons.IH[OF k' j] .
    ultimately show ?thesis using Suc by simp
  qed
qed

lemma strrchr_from_bounds:
  "strrchr_from s i c = Some k \<Longrightarrow> i \<le> k \<and> k < length s \<and> s ! k = c"
  by (auto simp: strrchr_from_def add.commute dest!: strrchr_bounds)

lemma strrchr_from_last:
  assumes "strrchr_from s i c = Some k" "i \<le> j" "j < length s" "s ! j = c"
  shows "j \<le> k"
proof -
  from assms(1) obtain k' where k': "strrchr (drop i s) c = Some k'" "k = k' + i"
    by (auto simp: strrchr_from_def)
  have "j - i \<le> k'"
    using assms by (intro strrchr_last[OF k'(1)]) auto
  then show ?thesis using k' assms by simp
qed

lemma getattr_nested:
  assumes p: "path = CHR ''/'' # q @ CHR ''/'' # r" and q: "CHR ''/'' \<notin> set q"
    and ls: "strrchr_from path 1 CHR ''/'' = Some ls"
    and seg: "drop (ls + 1) path \<notin> {''new'', ''tmp'', ''cur''}"
  shows "notmuchfs_getattr allowed w path =
     (if take 4 r = ''cur/'' \<or> (allowed \<and> three_before path ls ''new'')
      then (let (res, stbuf) = sys_stat (stat_r w (decode (take (PATH_MAX - 1) (drop (ls + 1) path))))
            in (res, stbuf\<lparr>st_size := st_size stbuf + 1024\<rparr>))
      else (- ENOENT, zero_stat))"
proof -
  have fs: "strchr_from path 1 CHR ''/'' = Some (length q + 1)"
    unfolding p using q by (rule strchr_from_first)
  have ne: "path \<noteq> ''/''" using p by simp
  have t5: "take 5 (drop (length q + 1) path) = CHR ''/'' # take 4 r"
    by (simp add: p)
  have gt: "int ls - int (length q + 1) > 3" if "take 4 r = ''cur/''"
  proof -
    from that have "r = ''cur/'' @ drop 4 r"
      by (metis append_take_drop_id)
    then obtain r' where r': "r = ''cur/'' @ r'" ..
    have "length q + 5 < length path" "path ! (length q + 5) = CHR ''/''"
      by (simp_all add: p r' nth_append)
    then have "length q + 5 \<le> ls"
      using strrchr_from_last[OF ls, of "length q + 5"] by simp
    then show ?thesis by simp
  qed
  show ?thesis
    using ls fs ne seg t5 gt
    by (auto simp: notmuchfs_getattr_def Let_def decode_def MAX_XLABEL_LENGTH_def)
qed

lemma read_header_part:
  "offset < 1024 \<Longrightarrow> sz \<le> 1024 - offset \<Longrightarrow> length (x_label p) = 1024 \<Longrightarrow>
   notmuchfs_read w p sz offset = (int sz, take sz (drop offset (x_label p)))"
  by (simp add: notmuchfs_read_def MAX_XLABEL_LENGTH_def Let_def min_def int_cast_small)

lemma read_header_then_file:
  "offset < 1024 \<Longrightarrow> 1024 - offset < sz \<Longrightarrow> length (x_label p) = 1024 \<Longrightarrow>
   notmuchfs_read w p sz offset =
     (case pread_r w (fh p) (sz - (1024 - offset)) 0 of
        Inl err \<Rightarrow> (- err, drop offset (x_label p))
      | Inr bytes \<Rightarrow> (int_cast (1024 - offset + length bytes), drop offset (x_label p) @ bytes))"
  by (simp add: notmuchfs_read_def MAX_XLABEL_LENGTH_def Let_def min_def split: sum.splits)

lemma read_file_part:
  "1024 \<le> offset \<Longrightarrow> 0 < sz \<Longrightarrow>
   notmuchfs_read w p sz offset =
     (case pread_r w (fh p) sz (int offset - 1024) of
        Inl err \<Rightarrow> (- err, [])
      | Inr bytes \<Rightarrow> (int_cast (length bytes), bytes))"
  by (simp add: notmuchfs_read_def MAX_XLABEL_LENGTH_def Let_def split: sum.splits)

lemma read_nothing:
  "1024 \<le> offset \<Longrightarrow> notmuchfs_read w p 0 offset = (0, [])"
  by (simp add: notmuchfs_read_def MAX_XLABEL_LENGTH_def Let_def int_cast_def)

lemma drop_prefix: "n = length xs \<Longrightarrow> drop n (xs @ ys) = ys"
  by simp

lemma open_virtual:
  assumes V: "V = CHR ''/'' # Q @ ''/cur/'' @ encode B"
    and B: "CHR ''#'' \<notin> set B" "length B < PATH_MAX"
    and o: "notmuchfs_open w V flags = Return (Inr p)"
  shows "open_r w B = Inr (fh p) \<and>
         (if CHR ''/'' \<in> set B
          then fst (find_message_r w B) = NOTMUCH_STATUS_SUCCESS \<and>
               x_label p = (case snd (find_message_r w B) of
                              None \<Rightarrow> replicate MAX_XLABEL_LENGTH NUL
                            | Some msg \<Rightarrow> x_label_header (msg_tags msg))
          else x_label p = replicate MAX_XLABEL_LENGTH NUL)"
proof -
  have ls: "strrchr_from V 1 CHR ''/'' = Some (length Q + 5)"
    unfolding V by (rule strrchr_from_virtual) (rule encode_no_slash)
  have "drop (length Q + 5 + 1) ((CHR ''/'' # Q @ ''/cur/'') @ encode B) = encode B"
    by (rule drop_prefix) simp
  then have t: "encode B = take (PATH_MAX - 1) (drop (length Q + 5 + 1) V)"
    using B by (simp add: V encode_def)
  have d: "decode (encode B) = B" using B by (simp add: decode_encode)
  have h: "CHR ''#'' \<in> set (encode B) \<longleftrightarrow> CHR ''/'' \<in> set B"
    using B by (simp add: encode_hash_iff)
  from notmuchfs_open_Inr[OF o ls t] show ?thesis
    unfolding d h .
qed

lemma open_x_label_length:
  assumes "notmuchfs_open w path flags = Return (Inr p)"
  shows "length (x_label p) = 1024"
proof (cases "strrchr_from path 1 CHR ''/''")
  case None
  with assms show ?thesis
    by (auto simp: notmuchfs_open_def Let_def MAX_XLABEL_LENGTH_def
        split: if_splits dest!: open_backing_Inr)
next
  case (Some ls)
  from notmuchfs_open_Inr[OF assms Some refl] show ?thesis
    by (auto simp: MAX_XLABEL_LENGTH_def x_label_header_length split: if_splits option.splits)
qed

lemma example_open_a:
  "notmuchfs_open example_world virtual_a O_RDONLY
     = Return (Inr \<lparr>fh = 3, x_label = x_label_header [''inbox'', ''unread'']\<rparr>)"
  by (simp add: notmuchfs_open_def virtual_a_def O_RDONLY_def strrchr_from_def PATH_MAX_def
      example_world_def database_open.simps file_a_def file_b_def msg_a_def open_backing_def
      compose_x_label_header Let_def)

lemma example_open_b:
  "notmuchfs_open example_world virtual_b O_RDONLY
     = Return (Inr \<lparr>fh = 4, x_label = replicate MAX_XLABEL_LENGTH NUL\<rparr>)"
  by (simp add: notmuchfs_open_def virtual_b_def O_RDONLY_def strrchr_from_def PATH_MAX_def
      example_world_def database_open.simps file_a_def file_b_def msg_a_def open_backing_def
      Let_def)

lemma virtual_a_eq: "virtual_a = CHR ''/'' # ''inbox'' @ ''/cur/'' @ encode file_a"
  by (simp add: virtual_a_def encode_def file_a_def)

text \<open>
  Claim C1. Let \<open>V = /Q/cur/encode(B)\<close> be opened read-only, \<open>B\<close> being a backing path
  without \<open>#\<close> and shorter than \<open>PATH_MAX\<close>. Then \<open>getattr\<close> on \<open>V\<close> reports the \<open>stat\<close> of \<open>B\<close>
  with 1024 added to the size, and the handle reads the descriptor of \<open>B\<close>. A read at
  an offset below 1024 returns \<open>min (1024 - offset) sz\<close> bytes of the header buffer, from
  byte \<open>offset\<close> on; the bytes still missing are what \<open>pread\<close> returns for \<open>B\<close> at byte 0. A
  read at an offset of 1024 or more returns what \<open>pread\<close> returns for \<open>B\<close> at
  \<open>offset - 1024\<close>. A failing \<open>pread\<close> makes the read fail with its \<open>errno\<close>. The value
  returned is the byte count converted to \<open>int\<close>.
\<close>

theorem virtual_file_size_and_read:
  assumes "V = CHR ''/'' # Q @ ''/cur/'' @ encode B"
    and "CHR ''/'' \<notin> set Q" and "CHR ''#'' \<notin> set B" and "length B < PATH_MAX"
    and "B \<notin> {''new'', ''tmp'', ''cur''}"
    and "stat_r w B = Inr st"
    and "notmuchfs_open w V O_RDONLY = Return (Inr p)"
  shows "notmuchfs_getattr allowed w V = (0, st\<lparr>st_size := st_size st + 1024\<rparr>)
       \<and> open_r w B = Inr (fh p)
       \<and> length (x_label p) = 1024
       \<and> (offset < 1024 \<and> sz \<le> 1024 - offset \<longrightarrow>
            notmuchfs_read w p sz offset = (int sz, take sz (drop offset (x_label p))))
       \<and> (offset < 1024 \<and> 1024 - offset < sz \<longrightarrow>
            notmuchfs_read w p sz offset =
              (case pread_r w (fh p) (sz - (1024 - offset)) 0 of
                 Inl err \<Rightarrow> (- err, drop offset (x_label p))
               | Inr bytes \<Rightarrow> (int_cast (1024 - offset + length bytes),
                                drop offset (x_label p) @ bytes)))
       \<and> (1024 \<le> offset \<and> 0 < sz \<longrightarrow>
            notmuchfs_read w p sz offset =
              (case pread_r w (fh p) sz (int offset - 1024) of
                 Inl err \<Rightarrow> (- err, [])
               | Inr bytes \<Rightarrow> (int_cast (length bytes), bytes)))
       \<and> (1024 \<le> offset \<longrightarrow> notmuchfs_read w p 0 offset = (0, []))"
proof -
  have n: "length (x_label p) = 1024"
    using assms(7) by (rule open_x_label_length)
  have ls: "strrchr_from V 1 CHR ''/'' = Some (length Q + 5)"
    unfolding assms(1) by (rule strrchr_from_virtual) (rule encode_no_slash)
  have "drop (length Q + 5 + 1) ((CHR ''/'' # Q @ ''/cur/'') @ encode B) = encode B"
    by (rule drop_prefix) simp
  then have seg: "drop (length Q + 5 + 1) V = encode B"
    by (simp add: assms(1))
  have "encode B \<notin> {''new'', ''tmp'', ''cur''}"
  proof
    assume "encode B \<in> {''new'', ''tmp'', ''cur''}"
    then have "CHR ''#'' \<notin> set (encode B)" by auto
    then have "CHR ''/'' \<notin> set B" by (simp add: encode_hash_iff)
    then have "encode B = B" by (simp add: encode_def string_replace_id)
    with \<open>encode B \<in> {''new'', ''tmp'', ''cur''}\<close> assms(5) show False by simp
  qed
  then have seg3: "drop (length Q + 5 + 1) V \<notin> {''new'', ''tmp'', ''cur''}"
    unfolding seg .
  have V': "V = CHR ''/'' # Q @ CHR ''/'' # (''cur/'' @ encode B)"
    by (simp add: assms(1))
  have d: "decode (take (PATH_MAX - 1) (encode B)) = B"
    using assms(3,4) by (simp add: encode_def decode_encode[unfolded encode_def])
  have g: "notmuchfs_getattr allowed w V = (0, st\<lparr>st_size := st_size st + 1024\<rparr>)"
    using getattr_nested[OF V' assms(2) ls seg3, of allowed w, unfolded seg d]
    by (simp add: assms(6) sys_stat_def)
  have op: "open_r w B = Inr (fh p)"
    using open_virtual[OF assms(1,3,4,7)] by simp
  show ?thesis
    using g op n read_header_part[of offset sz p w] read_header_then_file[of offset sz p w]
      read_file_part[of offset sz w p] read_nothing[of offset w p]
    by simp
qed

lemma x_label_a:
  "x_label_header [''inbox'', ''unread'']
     = ''X-Label: inbox,unread'' @ replicate 1002 CHR '' '' @ [CHR 0x0A]"
  by (simp add: x_label_header_def tag_region_def tags_fit_def XLABEL_def
      MAX_XLABEL_LENGTH_def)

theorem virtual_file_size_and_read_witness:
  "notmuchfs_open example_world virtual_a O_RDONLY = Return (Inr handle_a)
   \<and> notmuchfs_getattr True example_world virtual_a = (0, regular 11 1036)
   \<and> notmuchfs_read example_world handle_a 9 0 = (9, ''X-Label: '')
   \<and> notmuchfs_read example_world handle_a 8 1020
        = (8, replicate 3 CHR '' '' @ [CHR 0x0A] @ ''From'')
   \<and> notmuchfs_read example_world handle_a 12 1024 = (12, body_a)
   \<and> notmuchfs_read example_world handle_a 0 2000 = (0, [])"
proof -
  have o: "notmuchfs_open example_world virtual_a O_RDONLY = Return (Inr handle_a)"
    by (simp add: example_open_a handle_a_def)
  have q: "CHR ''/'' \<notin> set ''inbox''" by simp
  have b: "CHR ''#'' \<notin> set file_a" "length file_a < PATH_MAX"
    "file_a \<notin> {''new'', ''tmp'', ''cur''}"
    by (simp_all add: file_a_def PATH_MAX_def)
  have s: "stat_r example_world file_a = Inr (regular 11 12)"
    by (simp add: example_world_def example_stat_def file_a_def)
  note t = virtual_file_size_and_read[OF virtual_a_eq q b s o]
  have xa: "x_label handle_a = ''X-Label: inbox,unread'' @ replicate 1002 CHR '' '' @ [CHR 0x0A]"
    by (simp add: handle_a_def x_label_a)
  have pr: "pread_r example_world (fh handle_a) n off = Inr (take n (drop (nat off) body_a))" for n off
    by (simp add: example_world_def handle_a_def)
  have g: "notmuchfs_getattr True example_world virtual_a = (0, regular 11 1036)"
    using t[of True 0 0] by (simp add: regular_def)
  have r1: "notmuchfs_read example_world handle_a 9 0 = (9, ''X-Label: '')"
    using t[of True 0 9] by (simp add: xa)
  have r2: "notmuchfs_read example_world handle_a 8 1020 = (8, replicate 3 CHR '' '' @ [CHR 0x0A] @ ''From'')"
    using t[of True 1020 8] by (simp add: xa pr body_a_def int_cast_small)
  have r3: "notmuchfs_read example_world handle_a 12 1024 = (12, body_a)"
    using t[of True 1024 12] by (simp add: pr body_a_def int_cast_small)
  have r4: "notmuchfs_read example_world handle_a 0 2000 = (0, [])"
    using t[of True 2000 0] by simp
  from o g r1 r2 r3 r4 show ?thesis by simp
qed

lemma read_one_byte:
  "offset < 1024 \<Longrightarrow> length (x_label p) = 1024 \<Longrightarrow>
   notmuchfs_read w p 1 offset = (1, [x_label p ! offset])"
  using read_header_part[of offset 1 p w]
  by (simp add: take_Suc_conv_app_nth[of 0] Cons_nth_drop_Suc[symmetric] take_Suc hd_drop_conv_nth)

text \<open>
  When the index lookup finds the message of an encoded name, the header buffer has
  exactly 1024 bytes: \<open>X-Label: \<close> from byte 0, then the tag region (the comma-joined tags,
  or \<open>ERROR\<close>), then spaces, and LF at byte 1023; no NUL ends it. Reading one byte at an
  offset below 1024 returns the byte of the header at that offset.
\<close>

lemma header_of_indexed_message:
  assumes "V = CHR ''/'' # Q @ ''/cur/'' @ encode B"
    and "CHR ''/'' \<in> set B" and "CHR ''#'' \<notin> set B" and "length B < PATH_MAX"
    and "find_message_r w B = (status, Some msg)"
    and "notmuchfs_open w V flags = Return (Inr p)"
    and "offset < 1024"
  shows "x_label p = XLABEL @ tag_region (msg_tags msg)
                     @ replicate (1014 - length (tag_region (msg_tags msg))) CHR '' ''
                     @ [CHR 0x0A]
       \<and> (tag_region (msg_tags msg) = join_tags (msg_tags msg)
            \<or> tag_region (msg_tags msg) = TAG_ERROR_STRING)
       \<and> length (x_label p) = 1024
       \<and> take 9 (x_label p) = ''X-Label: ''
       \<and> x_label p ! 1023 = CHR 0x0A
       \<and> notmuchfs_read w p 1 offset = (1, [x_label p ! offset])"
proof -
  have x: "x_label p = x_label_header (msg_tags msg)"
    using open_virtual[OF assms(1,3,4,6)] assms(2,5) by simp
  have n: "length (x_label p) = 1024"
    using x by (simp add: x_label_header_length)
  have r: "length (tag_region (msg_tags msg)) \<le> 1013"
    by (rule tag_region_length)
  have "x_label_header (msg_tags msg) ! 1023 = CHR 0x0A"
  proof -
    let ?h = "XLABEL @ tag_region (msg_tags msg)
                @ replicate (1014 - length (tag_region (msg_tags msg))) CHR '' ''"
    have "length ?h = 1023" using r by (simp add: XLABEL_len)
    then have "(?h @ [CHR 0x0A]) ! 1023 = CHR 0x0A"
      by (metis nth_append_length)
    then show ?thesis by (simp add: x_label_header_def)
  qed
  moreover have "take 9 (x_label_header (msg_tags msg)) = ''X-Label: ''"
    by (simp add: x_label_header_def XLABEL_def)
  moreover have "tag_region (msg_tags msg) = join_tags (msg_tags msg)
            \<or> tag_region (msg_tags msg) = TAG_ERROR_STRING"
    by (simp add: tag_region_def)
  ultimately show ?thesis
    using x n read_one_byte[OF assms(7) n, of w] by (simp add: x_label_header_def)
qed

text \<open>The indexed mail file of the example mount has such a header.\<close>

lemma header_of_indexed_message_example:
  "notmuchfs_open example_world virtual_a O_RDONLY = Return (Inr handle_a)
   \<and> find_message_r example_world file_a = (NOTMUCH_STATUS_SUCCESS, Some msg_a)
   \<and> x_label handle_a = ''X-Label: inbox,unread'' @ replicate 1002 CHR '' '' @ [CHR 0x0A]
   \<and> notmuchfs_read example_world handle_a 1 1023 = (1, [CHR 0x0A])"
proof -
  have o: "notmuchfs_open example_world virtual_a O_RDONLY = Return (Inr handle_a)"
    by (simp add: example_open_a handle_a_def)
  have b: "CHR ''/'' \<in> set file_a" "CHR ''#'' \<notin> set file_a" "length file_a < PATH_MAX"
    by (simp_all add: file_a_def PATH_MAX_def)
  have f: "find_message_r example_world file_a = (NOTMUCH_STATUS_SUCCESS, Some msg_a)"
    by (simp add: example_world_def)
  have l: "(1023::nat) < 1024" by simp
  note t = header_of_indexed_message[OF virtual_a_eq b f o l]
  have xa: "x_label handle_a = ''X-Label: inbox,unread'' @ replicate 1002 CHR '' '' @ [CHR 0x0A]"
    by (simp add: handle_a_def x_label_a)
  from t o f xa show ?thesis by simp
qed

text \<open>
  Claim C2 at a mail file that exists in the backing store and that the index does not
  know: the lookup returns no message, the open succeeds all the same, the header
  buffer is left as 1024 zero bytes, and byte 0 of the file read is NUL, not the \<open>X\<close> of
  \<open>X-Label: \<close>.
\<close>

theorem unindexed_message_reads_zero_header:
  "find_message_r example_world file_b = (NOTMUCH_STATUS_SUCCESS, None)
   \<and> notmuchfs_open example_world virtual_b O_RDONLY = Return (Inr handle_b)
   \<and> x_label handle_b = replicate 1024 NUL
   \<and> notmuchfs_read example_world handle_b 1 0 = (1, [NUL])
   \<and> [NUL] \<noteq> take 1 XLABEL"
proof -
  have "notmuchfs_read example_world handle_b 1 0 = (1, [x_label handle_b ! 0])"
    by (rule read_one_byte) (simp_all add: handle_b_def MAX_XLABEL_LENGTH_def)
  moreover have "x_label handle_b ! 0 = NUL"
    by (simp add: handle_b_def MAX_XLABEL_LENGTH_def)
  moreover have "find_message_r example_world file_b = (NOTMUCH_STATUS_SUCCESS, None)"
    by (simp add: example_world_def file_a_def file_b_def)
  ultimately show ?thesis
    by (simp add: example_open_b handle_b_def NUL_def XLABEL_def MAX_XLABEL_LENGTH_def)
qed

lemma read_buffer_prefix:
  assumes "offset < 1024" "length (x_label p) = 1024"
  shows "take (min (1024 - offset) sz) (snd (notmuchfs_read w p sz offset))
         = take (min (1024 - offset) sz) (drop offset (x_label p))"
proof (cases "sz \<le> 1024 - offset")
  case True
  then show ?thesis using assms by (simp add: read_header_part min_def)
next
  case False
  then have "1024 - offset < sz" by simp
  from read_header_then_file[OF assms(1) this assms(2), of w] False assms
  show ?thesis by (simp add: min_def split: sum.splits)
qed

text \<open>
  Claim C10. When an open succeeds and either the last segment of the path has no \<open>#\<close>
  or the index lookup by filename finds no message, the header buffer is 1024 zero
  bytes, and a read at an offset below 1024 returns NUL in the header positions.
\<close>

theorem header_left_zero:
  assumes "notmuchfs_open w path flags = Return (Inr p)"
    and "CHR ''#'' \<notin> set (last_segment path)
         \<or> (strrchr_from path 1 CHR ''/'' \<noteq> None
            \<and> snd (find_message_r w (decode (last_segment path))) = None)"
  shows "x_label p = replicate 1024 NUL
       \<and> (offset < 1024 \<longrightarrow>
            take (min (1024 - offset) sz) (snd (notmuchfs_read w p sz offset))
              = replicate (min (1024 - offset) sz) NUL)
       \<and> (offset < 1024 \<and> sz \<le> 1024 - offset \<longrightarrow>
            notmuchfs_read w p sz offset = (int sz, replicate sz NUL))"
proof -
  have x: "x_label p = replicate 1024 NUL"
  proof (cases "strrchr_from path 1 CHR ''/''")
    case None
    with assms(1) show ?thesis
      by (auto simp: notmuchfs_open_def Let_def MAX_XLABEL_LENGTH_def
          split: if_splits dest!: open_backing_Inr)
  next
    case (Some ls)
    then have t: "last_segment path = take (PATH_MAX - 1) (drop (ls + 1) path)"
      by (simp add: last_segment_def)
    from notmuchfs_open_Inr[OF assms(1) Some t] assms(2) Some show ?thesis
      by (auto simp: MAX_XLABEL_LENGTH_def split: if_splits)
  qed
  then have n: "length (x_label p) = 1024" by simp
  have "offset < 1024 \<Longrightarrow> take (min (1024 - offset) sz) (snd (notmuchfs_read w p sz offset))
              = replicate (min (1024 - offset) sz) NUL"
    using read_buffer_prefix[OF _ n, of offset sz w] by (simp add: x min_def)
  moreover have "offset < 1024 \<Longrightarrow> sz \<le> 1024 - offset \<Longrightarrow>
      notmuchfs_read w p sz offset = (int sz, replicate sz NUL)"
    using read_header_part[OF _ _ n, of offset sz w] by (simp add: x min_def)
  ultimately show ?thesis using x by simp
qed

text \<open>
  The unindexed mail file of the example mount is such a path.
\<close>

theorem header_left_zero_witness:
  "notmuchfs_open example_world virtual_b O_RDONLY = Return (Inr handle_b)
   \<and> snd (find_message_r example_world (decode (last_segment virtual_b))) = None
   \<and> x_label handle_b = replicate 1024 NUL
   \<and> notmuchfs_read example_world handle_b 9 0 = (9, replicate 9 NUL)"
proof -
  have o: "notmuchfs_open example_world virtual_b O_RDONLY = Return (Inr handle_b)"
    by (simp add: example_open_b handle_b_def)
  have s: "strrchr_from virtual_b 1 CHR ''/'' = Some 10"
    by (simp add: virtual_b_def strrchr_from_def)
  have "last_segment virtual_b = ''#m#b#cur#2:2,S''"
    unfolding last_segment_def s by (simp add: virtual_b_def PATH_MAX_def)
  then have f: "snd (find_message_r example_world (decode (last_segment virtual_b))) = None"
    by (simp add: decode_def example_world_def file_a_def)
  have h: "CHR ''#'' \<notin> set (last_segment virtual_b)
         \<or> (strrchr_from virtual_b 1 CHR ''/'' \<noteq> None
            \<and> snd (find_message_r example_world (decode (last_segment virtual_b))) = None)"
    using s f by simp
  from header_left_zero[OF o h, of 0 9] o f show ?thesis by simp
qed

text \<open>
  Claim C9 at a tag list whose comma-joined length is exactly the budget of
  \<open>1024 - length XLABEL - 1 = 1014\<close> bytes: the list does not exceed the budget, and the
  tag region is \<open>ERROR\<close> all the same.
\<close>

theorem tags_of_budget_length_give_error:
  "length (join_tags [replicate 1014 CHR ''a'']) = MAX_XLABEL_LENGTH - length XLABEL - 1
   \<and> fill_string_with_tags (replicate 1014 NUL) 0 (MAX_XLABEL_LENGTH - length XLABEL - 1)
        [replicate 1014 CHR ''a'']
       = (TAG_ERROR_STRING @ replicate 1009 NUL, 5)
   \<and> compose_x_label (replicate MAX_XLABEL_LENGTH NUL) [replicate 1014 CHR ''a'']
       = Return (XLABEL @ TAG_ERROR_STRING @ replicate 1009 CHR '' '' @ [CHR 0x0A])"
proof -
  have a: "length (join_tags [replicate 1014 CHR ''a'']) = MAX_XLABEL_LENGTH - length XLABEL - 1"
    by (simp add: MAX_XLABEL_LENGTH_def XLABEL_len)
  have b: "fill_string_with_tags (replicate 1014 NUL) 0 (MAX_XLABEL_LENGTH - length XLABEL - 1)
        [replicate 1014 CHR ''a''] = (TAG_ERROR_STRING @ replicate 1009 NUL, 5)"
    by (simp add: fill_string_with_tags_def MAX_XLABEL_LENGTH_def XLABEL_len memcpy_def
        TAG_ERROR_STRING_len)
  have "tag_region [replicate 1014 CHR ''a''] = TAG_ERROR_STRING"
    by (simp add: tag_region_def tags_fit_def MAX_XLABEL_LENGTH_def XLABEL_len)
  then have c: "compose_x_label (replicate MAX_XLABEL_LENGTH NUL) [replicate 1014 CHR ''a'']
       = Return (XLABEL @ TAG_ERROR_STRING @ replicate 1009 CHR '' '' @ [CHR 0x0A])"
    by (simp add: compose_x_label_header x_label_header_def TAG_ERROR_STRING_len)
  from a b c show ?thesis by simp
qed

text \<open>
  Claim C8, amended. For a path of more than one segment whose last segment is not
  \<open>new\<close>, \<open>tmp\<close> or \<open>cur\<close> and has no \<open>#\<close>: when the path is below \<open>/q/cur/\<close> (or, in
  compatibility mode, the three bytes before the last \<open>/\<close> are \<open>new\<close>), \<open>getattr\<close> is the
  \<open>stat\<close> of the last segment alone, with 1024 added to the size, a failing \<open>stat\<close> giving
  its \<open>errno\<close>; otherwise the result is the not-found error and the backing store is not
  asked. The path is never passed to \<open>lstat\<close>.
\<close>

theorem getattr_nested_path:
  assumes "path = CHR ''/'' # q @ CHR ''/'' # r" and "CHR ''/'' \<notin> set q"
    and "strrchr_from path 1 CHR ''/'' = Some ls"
    and "drop (ls + 1) path \<notin> {''new'', ''tmp'', ''cur''}"
    and "CHR ''#'' \<notin> set (drop (ls + 1) path)"
  shows "notmuchfs_getattr allowed w path =
     (if take 4 r = ''cur/'' \<or> (allowed \<and> three_before path ls ''new'')
      then (case stat_r w (take (PATH_MAX - 1) (drop (ls + 1) path)) of
              Inl err \<Rightarrow> (- err, zero_stat\<lparr>st_size := 1024\<rparr>)
            | Inr st \<Rightarrow> (0, st\<lparr>st_size := st_size st + 1024\<rparr>))
      else (- ENOENT, zero_stat))"
proof -
  have "CHR ''#'' \<notin> set (take (PATH_MAX - 1) (drop (ls + 1) path))"
    using assms(5) by (auto dest: in_set_takeD)
  then have d: "decode (take (PATH_MAX - 1) (drop (ls + 1) path))
                = take (PATH_MAX - 1) (drop (ls + 1) path)"
    by (simp add: decode_def string_replace_id)
  show ?thesis
    unfolding getattr_nested[OF assms(1-4)] d
    by (simp add: sys_stat_def zero_stat_def split: sum.splits)
qed

text \<open>
  Two such paths of the example mount, one outside \<open>cur/\<close> and one below it.
\<close>

theorem getattr_nested_path_witness:
  "notmuchfs_getattr False example_world ''/dir/file'' = (- ENOENT, zero_stat)
   \<and> notmuchfs_getattr False example_world ''/inbox/cur/dir/file''
       = (- ENOENT, zero_stat\<lparr>st_size := 1024\<rparr>)"
proof -
  have p1: "''/dir/file'' = CHR ''/'' # ''dir'' @ CHR ''/'' # ''file''" by simp
  have q1: "CHR ''/'' \<notin> set ''dir''" by simp
  have l1: "strrchr_from ''/dir/file'' 1 CHR ''/'' = Some 4"
    by (simp add: strrchr_from_def)
  have s1: "drop (4 + 1) ''/dir/file'' \<notin> {''new'', ''tmp'', ''cur''}"
    "CHR ''#'' \<notin> set (drop (4 + 1) ''/dir/file'')" by simp_all
  have p2: "''/inbox/cur/dir/file'' = CHR ''/'' # ''inbox'' @ CHR ''/'' # ''cur/dir/file''"
    by simp
  have q2: "CHR ''/'' \<notin> set ''inbox''" by simp
  have l2: "strrchr_from ''/inbox/cur/dir/file'' 1 CHR ''/'' = Some 14"
    by (simp add: strrchr_from_def)
  have s2: "drop (14 + 1) ''/inbox/cur/dir/file'' \<notin> {''new'', ''tmp'', ''cur''}"
    "CHR ''#'' \<notin> set (drop (14 + 1) ''/inbox/cur/dir/file'')" by simp_all
  have a: "notmuchfs_getattr False example_world ''/dir/file'' = (- ENOENT, zero_stat)"
    using getattr_nested_path[OF p1 q1 l1 s1, of False example_world] by simp
  have b: "notmuchfs_getattr False example_world ''/inbox/cur/dir/file''
       = (- ENOENT, zero_stat\<lparr>st_size := 1024\<rparr>)"
    using getattr_nested_path[OF p2 q2 l2 s2, of False example_world]
    by (simp add: example_world_def example_stat_def PATH_MAX_def file_a_def file_b_def)
  from a b show ?thesis by simp
qed

text \<open>
  Claim C8 as stated fails: \<open>dir/file\<close> exists in the backing store, and \<open>getattr\<close> on
  \<open>/dir/file\<close> reports not-found.
\<close>

theorem getattr_backing_counterexample:
  "lstat_r example_world ''dir/file'' = Inr (regular 13 7)
   \<and> notmuchfs_getattr False example_world ''/dir/file'' = (- ENOENT, zero_stat)
   \<and> notmuchfs_getattr True example_world ''/dir/file'' = (- ENOENT, zero_stat)"
  by (simp add: notmuchfs_getattr_def strrchr_from_def strchr_from_def three_before_def
      example_world_def example_stat_def file_a_def file_b_def Let_def)

subsection \<open>opendir and readdir\<close>

lemma upto_append: "i \<le> j \<Longrightarrow> j \<le> k \<Longrightarrow> [i..j - 1] @ [j..k - 1] = [i..k - (1::int)]"
proof (cases "j = k")
  case True
  then show ?thesis by simp
next
  case False
  assume "i \<le> j" "j \<le> k"
  with False have "j \<le> k - 1" by simp
  with \<open>i \<le> j\<close> show ?thesis by (simp add: upto_split1[of i j "k - 1"])
qed

lemma filler_offsets:
  "filler buf name stbuf off = (buf1, full) \<Longrightarrow>
   (full \<noteq> 0 \<longrightarrow> buf1 = buf) \<and>
   (full = 0 \<longrightarrow> contents buf1 = contents buf @ [\<lparr>d_name = name, d_stat = stbuf, d_off = off\<rparr>])"
  by (auto simp: filler_def Let_def split: if_splits)

lemma fill_dir_with_message_offsets:
  assumes "fill_dir_with_message w dir_fd m buf = (res, dir_fd1, buf1)"
  shows "map d_off (contents buf1)
           = map d_off (contents buf) @ [next_offset dir_fd .. next_offset dir_fd1 - 1]
       \<and> next_offset dir_fd \<le> next_offset dir_fd1
       \<and> (res = INT_MAX \<longrightarrow> dir_fd1 = dir_fd \<and> buf1 = buf)"
proof (cases "msg_filename m")
  case None
  with assms show ?thesis by (simp add: fill_dir_with_message_def)
next
  case (Some fname)
  show ?thesis
  proof (cases "stat_r w fname")
    case (Inl err)
    with assms Some show ?thesis
      by (auto simp: fill_dir_with_message_def INT_MAX_def ENOENT_def split: if_splits)
  next
    case (Inr st)
    let ?name = "string_replace (take (PATH_MAX - 1) fname) CHR ''/'' CHR ''#''"
    let ?st = "Some (st\<lparr>st_size := st_size st + int MAX_XLABEL_LENGTH\<rparr>)"
    obtain b full where f: "filler buf ?name ?st (next_offset dir_fd) = (b, full)"
      by (cases "filler buf ?name ?st (next_offset dir_fd)")
    from filler_offsets[OF f] assms Some Inr f show ?thesis
      by (auto simp: fill_dir_with_message_def Let_def INT_MAX_def split: if_splits)
  qed
qed

lemma query_loop_offsets:
  "query_loop w msgs dir_fd buf = (res, dir_fd1, buf1) \<Longrightarrow>
   map d_off (contents buf1)
     = map d_off (contents buf) @ [next_offset dir_fd .. next_offset dir_fd1 - 1]
   \<and> next_offset dir_fd \<le> next_offset dir_fd1"
proof (induction msgs arbitrary: dir_fd buf)
  case Nil
  then show ?case by auto
next
  case (Cons m rest)
  obtain r d b where f: "fill_dir_with_message w dir_fd m buf = (r, d, b)"
    by (cases "fill_dir_with_message w dir_fd m buf")
  note o = fill_dir_with_message_offsets[OF f]
  show ?case
  proof (cases "r = INT_MAX")
    case True
    with Cons.prems f o show ?thesis by auto
  next
    case False
    show ?thesis
    proof (cases "r = 0")
      case True
      with Cons.prems f False have "query_loop w rest d b = (res, dir_fd1, buf1)" by simp
      from Cons.IH[OF this] o show ?thesis
        by (simp add: upto_append)
    next
      case nz: False
      with Cons.prems f False o show ?thesis by auto
    qed
  qed
qed

lemma example_dereference:
  "dereference example_world ''inbox'' = Some (0, ''tag:inbox'')"
proof -
  have l1: "lstat_r example_world ''inbox'' = Inr \<lparr>st_ino = 14, st_mode = 0xA1FF, st_size = 9\<rparr>"
    by (simp add: example_world_def example_stat_def file_a_def file_b_def)
  have rl: "readlink_r example_world ''inbox'' = Inr ''tag:inbox''"
    by (simp add: example_world_def)
  have l2: "lstat_r example_world ''tag:inbox'' = Inl ENOENT"
    by (simp add: example_world_def example_stat_def file_a_def file_b_def)
  have "dereference example_world ''tag:inbox'' = Some (0, ''tag:inbox'')"
    by (subst dereference.simps) (simp add: l2)
  then show ?thesis
    by (subst dereference.simps) (simp add: l1 rl S_ISLNK_def PATH_MAX_def)
qed

lemma strtok_first:
  "strtok (excluded_tags example_ctx) 0 CHR 0x0A
     = (''deleted'' @ [NUL] @ ''spam'' @ replicate 116 NUL, 8, Some ''deleted'')"
  by (simp add: strtok_def example_ctx_def NUL_def Let_def)

lemma strtok_second:
  "strtok (''deleted'' @ [NUL] @ ''spam'' @ replicate 116 NUL) 8 CHR 0x0A
     = (''deleted'' @ [NUL] @ ''spam'' @ replicate 116 NUL, 12, Some ''spam'')"
  by (simp add: strtok_def NUL_def Let_def nth_append)

lemma strtok_third:
  "strtok (''deleted'' @ [NUL] @ ''spam'' @ replicate 116 NUL) 12 CHR 0x0A
     = (''deleted'' @ [NUL] @ ''spam'' @ replicate 116 NUL, 12, None)"
  by (simp add: strtok_def NUL_def Let_def nth_append)

lemma strtok_again_first:
  "strtok (''deleted'' @ [NUL] @ ''spam'' @ replicate 116 NUL) 0 CHR 0x0A
     = (''deleted'' @ [NUL] @ ''spam'' @ replicate 116 NUL, 7, Some ''deleted'')"
  by (simp add: strtok_def NUL_def Let_def nth_append)

lemma strtok_again_second:
  "strtok (''deleted'' @ [NUL] @ ''spam'' @ replicate 116 NUL) 7 CHR 0x0A
     = (''deleted'' @ [NUL] @ ''spam'' @ replicate 116 NUL, 7, None)"
  by (simp add: strtok_def NUL_def Let_def nth_append)

lemma exclude_loop_first:
  "exclude_loop (excluded_tags example_ctx) 0 q
     = (excluded_tags example_ctx1, q\<lparr>tag_excludes := tag_excludes q @ [''deleted'', ''spam'']\<rparr>)"
  apply (subst exclude_loop.simps)
  apply (simp only: strtok_first prod.case option.case)
  apply (subst exclude_loop.simps)
  apply (simp only: strtok_second prod.case option.case)
  apply (subst exclude_loop.simps)
  apply (simp only: strtok_third prod.case option.case)
  apply (simp add: example_ctx1_def)
  done

lemma exclude_loop_again:
  "exclude_loop (excluded_tags example_ctx1) 0 q
     = (excluded_tags example_ctx1, q\<lparr>tag_excludes := tag_excludes q @ [''deleted'']\<rparr>)"
  unfolding example_ctx1_def notmuch_context_t.simps
  apply (subst exclude_loop.simps)
  apply (simp only: strtok_again_first prod.case option.case)
  apply (subst exclude_loop.simps)
  apply (simp only: strtok_again_second prod.case option.case)
  done

lemma example_opendir_first:
  "notmuchfs_opendir example_world example_ctx ''/inbox/cur''
     = Some (Return (Inr (example_dir_fd [''deleted'', ''spam''])), example_ctx1)"
proof -
  have ls: "strrchr_from ''/inbox/cur'' 1 CHR ''/'' = Some 6"
    by (simp add: strrchr_from_def)
  have db: "database_open (db_open_r example_world) (db_needs_upgrade example_world) = Opened"
    by (simp add: example_world_def)
  have w: "query_create_r example_world ''tag:inbox''"
    "search_messages_r example_world q = (NOTMUCH_STATUS_SUCCESS, [msg_a])" for q
    by (simp_all add: example_world_def)
  show ?thesis
    unfolding notmuchfs_opendir_def ls
    by (simp add: example_dereference db w exclude_loop_first Let_def opendir_result_def
        new_dir_fd_def example_dir_fd_def example_query_def example_ctx1_def)
qed

lemma example_opendir_again:
  "notmuchfs_opendir example_world example_ctx1 ''/inbox/cur''
     = Some (Return (Inr (example_dir_fd [''deleted''])), example_ctx1)"
proof -
  have ls: "strrchr_from ''/inbox/cur'' 1 CHR ''/'' = Some 6"
    by (simp add: strrchr_from_def)
  have db: "database_open (db_open_r example_world) (db_needs_upgrade example_world) = Opened"
    by (simp add: example_world_def)
  have w: "query_create_r example_world ''tag:inbox''"
    "search_messages_r example_world q = (NOTMUCH_STATUS_SUCCESS, [msg_a])" for q
    by (simp_all add: example_world_def)
  show ?thesis
    unfolding notmuchfs_opendir_def ls
    by (simp add: example_dereference db w exclude_loop_again Let_def opendir_result_def
        new_dir_fd_def example_dir_fd_def example_query_def)
qed

text \<open>
  Claim C7 at an exclusion list of two tags. \<open>notmuchfs_init\<close> captures the list
  \<open>deleted\<close>, \<open>spam\<close>. The first \<open>opendir\<close> of \<open>/inbox/cur\<close> registers both tags and leaves a
  NUL in the buffer where the newline was; the second \<open>opendir\<close> registers \<open>deleted\<close> only.
\<close>

theorem second_opendir_loses_excluded_tags:
  "notmuchfs_init True True (replicate EXCLUDED_TAGS_MAX_LENGTH NUL)
       (Some (''deleted'' @ [CHR 0x0A] @ ''spam'' @ [CHR 0x0A])) = Some example_ctx
   \<and> notmuchfs_opendir example_world example_ctx ''/inbox/cur''
       = Some (Return (Inr (example_dir_fd [''deleted'', ''spam''])), example_ctx1)
   \<and> notmuchfs_opendir example_world example_ctx1 ''/inbox/cur''
       = Some (Return (Inr (example_dir_fd [''deleted''])), example_ctx1)
   \<and> excluded_tags example_ctx1 \<noteq> excluded_tags example_ctx"
proof -
  have "notmuchfs_init True True (replicate EXCLUDED_TAGS_MAX_LENGTH NUL)
       (Some (''deleted'' @ [CHR 0x0A] @ ''spam'' @ [CHR 0x0A])) = Some example_ctx"
  proof -
    have "replicate 116 NUL = replicate (Suc 115) NUL" by simp
    then have r: "replicate 116 NUL = NUL # replicate 115 NUL"
      by (simp only: replicate_Suc)
    show ?thesis
      by (simp add: notmuchfs_init_def EXCLUDED_TAGS_MAX_LENGTH_def example_ctx_def Let_def
          list_update_append r)
  qed
  moreover have "excluded_tags example_ctx1 \<noteq> excluded_tags example_ctx"
    by (simp add: example_ctx_def example_ctx1_def NUL_def)
  ultimately show ?thesis
    by (simp add: example_opendir_first example_opendir_again)
qed

lemma query_loop_contents:
  "query_loop w msgs dir_fd buf = (res, dir_fd1, buf1) \<Longrightarrow>
   \<exists>more. contents buf1 = contents buf @ more"
proof (induction msgs arbitrary: dir_fd buf)
  case Nil
  then show ?case by auto
next
  case (Cons m rest)
  obtain r d b where f: "fill_dir_with_message w dir_fd m buf = (r, d, b)"
    by (cases "fill_dir_with_message w dir_fd m buf")
  have c: "\<exists>more. contents b = contents buf @ more"
    using f
    by (auto simp: fill_dir_with_message_def filler_def Let_def
        split: option.splits sum.splits if_splits)
  show ?case
  proof (cases "r = 0 \<and> r \<noteq> INT_MAX")
    case True
    with Cons.prems f have "query_loop w rest d b = (res, dir_fd1, buf1)" by simp
    from Cons.IH[OF this] c show ?thesis by auto
  next
    case False
    with Cons.prems f c show ?thesis by (auto split: if_splits)
  qed
qed

lemma fill_dots:
  assumes "64 \<le> n"
  shows "filler (fresh_buf n) ''.'' None off
           = (\<lparr>contents = [\<lparr>d_name = ''.'', d_stat = None, d_off = off\<rparr>],
               used = 32, needlen = n\<rparr>, 0)"
    and "filler \<lparr>contents = [\<lparr>d_name = ''.'', d_stat = None, d_off = off\<rparr>],
               used = 32, needlen = n\<rparr> ''..'' None off'
           = (\<lparr>contents = [\<lparr>d_name = ''.'', d_stat = None, d_off = off\<rparr>,
                           \<lparr>d_name = ''..'', d_stat = None, d_off = off'\<rparr>],
               used = 64, needlen = n\<rparr>, 0)"
  using assms by (simp_all add: filler_def fresh_buf_def fuse_dirent_size_def Let_def)

lemma readdir_from_start:
  assumes "64 \<le> n"
  shows "notmuchfs_readdir w dir_fd (fresh_buf n) 0
         = query_loop w (p_messages dir_fd) (dir_fd\<lparr>next_offset := next_offset dir_fd + 2\<rparr>)
             \<lparr>contents = dot_entries (next_offset dir_fd), used = 64, needlen = n\<rparr>"
  using assms by (simp add: notmuchfs_readdir_def fill_dots Let_def dot_entries_def add.commute)

lemma readdir_offsets:
  assumes "64 \<le> n"
    and "notmuchfs_readdir w dir_fd (fresh_buf n) offset_in = (res, dir_fd1, buf1)"
  shows "map d_off (contents buf1) = [next_offset dir_fd .. next_offset dir_fd1 - 1]
       \<and> next_offset dir_fd \<le> next_offset dir_fd1"
proof (cases "offset_in = 0")
  case True
  with assms have "query_loop w (p_messages dir_fd)
             (dir_fd\<lparr>next_offset := next_offset dir_fd + 2\<rparr>)
             \<lparr>contents = dot_entries (next_offset dir_fd), used = 64, needlen = n\<rparr>
           = (res, dir_fd1, buf1)"
    by (simp add: readdir_from_start)
  from query_loop_offsets[OF this]
  have "map d_off (contents buf1)
          = [next_offset dir_fd, next_offset dir_fd + 1]
            @ [next_offset dir_fd + 2 .. next_offset dir_fd1 - 1]"
    and le: "next_offset dir_fd + 2 \<le> next_offset dir_fd1"
    by (simp_all add: dot_entries_def)
  moreover have "[next_offset dir_fd .. next_offset dir_fd1 - 1]
      = next_offset dir_fd # (next_offset dir_fd + 1) # [next_offset dir_fd + 2 .. next_offset dir_fd1 - 1]"
    using le by (simp add: upto_rec1 add.commute)
  ultimately show ?thesis by simp
next
  case False
  show ?thesis
  proof (cases "offset_in + 1 \<noteq> next_offset dir_fd")
    case True
    with assms False show ?thesis
      by (auto simp: notmuchfs_readdir_def fresh_buf_def)
  next
    case eq: False
    with assms False have "query_loop w (p_messages dir_fd) dir_fd (fresh_buf n)
           = (res, dir_fd1, buf1)"
      by (simp add: notmuchfs_readdir_def)
    from query_loop_offsets[OF this] show ?thesis by (simp add: fresh_buf_def)
  qed
qed

lemma readdir_sequence_offsets:
  "readdir_sequence w dir_fd0 dir_fd out \<Longrightarrow>
   map d_off out = [next_offset dir_fd0 .. next_offset dir_fd - 1]
   \<and> next_offset dir_fd0 \<le> next_offset dir_fd"
proof (induction rule: readdir_sequence.induct)
  case opened
  then show ?case by simp
next
  case (readdir dir_fd out n offset_in res dir_fd1 buf1)
  from readdir_offsets[OF readdir.hyps(2,3)] readdir.IH show ?case
    by (simp add: upto_append)
qed

lemma opendir_query_next_offset:
  assumes "notmuchfs_opendir w p_ctx path = Some (Return (Inr dir_fd), p_ctx1)"
    and "dir_type dir_fd = OPENDIR_TYPE_NOTMUCH_QUERY"
  shows "next_offset dir_fd = 1"
  using assms
  by (auto simp: notmuchfs_opendir_def opendir_result_def new_dir_fd_def Let_def
      split: if_splits option.splits db_open_outcome.splits prod.splits)

lemma full_buffer_keeps_message:
  assumes "fill_dir_with_message w dir_fd m buf = (INT_MAX, d1, b1)"
  shows "query_loop w (m # rest) dir_fd buf = (0, dir_fd\<lparr>p_messages := m # rest\<rparr>, buf)"
  using fill_dir_with_message_offsets[OF assms] assms by simp

lemma readdir_continues_with_current:
  assumes "offset_in \<noteq> 0" "offset_in + 1 = next_offset dir_fd"
    and "p_messages dir_fd = m # rest" "msg_filename m = Some fname"
    and "stat_r w fname = Inr st"
    and "fuse_dirent_size (length (take (PATH_MAX - 1) fname)) \<le> n"
  shows "\<exists>more. contents (snd (snd (notmuchfs_readdir w dir_fd (fresh_buf n) offset_in)))
           = \<lparr>d_name = encode (take (PATH_MAX - 1) fname),
              d_stat = Some (st\<lparr>st_size := st_size st + 1024\<rparr>),
              d_off = next_offset dir_fd\<rparr> # more"
proof -
  let ?e = "\<lparr>d_name = encode (take (PATH_MAX - 1) fname),
              d_stat = Some (st\<lparr>st_size := st_size st + 1024\<rparr>),
              d_off = next_offset dir_fd\<rparr>"
  let ?d = "dir_fd\<lparr>next_offset := next_offset dir_fd + 1\<rparr>"
  let ?b = "\<lparr>contents = [?e], used = fuse_dirent_size (length (take (PATH_MAX - 1) fname)),
             needlen = n\<rparr>"
  have f: "fill_dir_with_message w dir_fd m (fresh_buf n) = (0, ?d, ?b)"
    using assms(4,5,6)
    by (simp add: fill_dir_with_message_def filler_def fresh_buf_def Let_def encode_def
        MAX_XLABEL_LENGTH_def)
  obtain res d1 b1 where q: "query_loop w rest ?d ?b = (res, d1, b1)"
    by (cases "query_loop w rest ?d ?b")
  from query_loop_contents[OF q] obtain more where "contents b1 = [?e] @ more"
    by auto
  moreover have "notmuchfs_readdir w dir_fd (fresh_buf n) offset_in = (res, d1, b1)"
    using assms(1,2,3) f q by (simp add: notmuchfs_readdir_def INT_MAX_def)
  ultimately show ?thesis by simp
qed

text \<open>
  Claim C3. On a handle that \<open>opendir\<close> returned for a \<open>cur\<close> directory, with \<open>readdir\<close>
  buffers of at least 64 bytes: the call with offset 0 on the new handle emits \<open>.\<close> and
  \<open>..\<close> at the offsets 1 and 2; the offsets of all entries emitted by a sequence of calls
  are 1, 2, 3, ... without a gap, up to the handle's \<open>next_offset\<close>; a message whose
  entry the filler refuses stays the current message at the same offset, and the next
  continuation call emits it first, at that offset; a continuation call whose offset
  is not \<open>next_offset - 1\<close> returns \<open>-EDOM\<close> and leaves handle and buffer as they were.
\<close>

theorem cur_readdir_offsets:
  assumes "notmuchfs_opendir w p_ctx path = Some (Return (Inr dir_fd0), p_ctx1)"
    and "dir_type dir_fd0 = OPENDIR_TYPE_NOTMUCH_QUERY"
    and "readdir_sequence w dir_fd0 dir_fd out"
    and "64 \<le> n"
  shows "(\<exists>more. contents (snd (snd (notmuchfs_readdir w dir_fd0 (fresh_buf n) 0)))
            = dot_entries 1 @ more)
       \<and> map d_off out = [1 .. next_offset dir_fd - 1]
       \<and> (fill_dir_with_message w dir_fd m buf = (INT_MAX, d1, b1) \<longrightarrow>
            query_loop w (m # rest) dir_fd buf = (0, dir_fd\<lparr>p_messages := m # rest\<rparr>, buf))
       \<and> (offset_in \<noteq> 0 \<and> offset_in + 1 = next_offset dir_fd
            \<and> p_messages dir_fd = m # rest \<and> msg_filename m = Some fname
            \<and> stat_r w fname = Inr st
            \<and> fuse_dirent_size (length (take (PATH_MAX - 1) fname)) \<le> n \<longrightarrow>
            (\<exists>more. contents (snd (snd (notmuchfs_readdir w dir_fd (fresh_buf n) offset_in)))
               = \<lparr>d_name = encode (take (PATH_MAX - 1) fname),
                  d_stat = Some (st\<lparr>st_size := st_size st + 1024\<rparr>),
                  d_off = next_offset dir_fd\<rparr> # more))
       \<and> (offset_in \<noteq> 0 \<and> offset_in + 1 \<noteq> next_offset dir_fd \<longrightarrow>
            notmuchfs_readdir w dir_fd buf offset_in = (- EDOM, dir_fd, buf))"
proof -
  have one: "next_offset dir_fd0 = 1"
    using assms(1,2) by (rule opendir_query_next_offset)
  have a: "\<exists>more. contents (snd (snd (notmuchfs_readdir w dir_fd0 (fresh_buf n) 0)))
            = dot_entries 1 @ more"
  proof -
    let ?q = "query_loop w (p_messages dir_fd0) (dir_fd0\<lparr>next_offset := next_offset dir_fd0 + 2\<rparr>)
             \<lparr>contents = dot_entries (next_offset dir_fd0), used = 64, needlen = n\<rparr>"
    obtain res d b where q: "?q = (res, d, b)" by (cases ?q)
    have "notmuchfs_readdir w dir_fd0 (fresh_buf n) 0 = (res, d, b)"
      unfolding readdir_from_start[OF assms(4)] by (rule q)
    moreover from query_loop_contents[OF q]
    have "\<exists>more. contents b = dot_entries 1 @ more"
      by (simp add: one)
    ultimately show ?thesis by simp
  qed
  have b: "map d_off out = [1 .. next_offset dir_fd - 1]"
    using readdir_sequence_offsets[OF assms(3)] by (simp add: one)
  have e: "offset_in \<noteq> 0 \<and> offset_in + 1 \<noteq> next_offset dir_fd \<longrightarrow>
            notmuchfs_readdir w dir_fd buf offset_in = (- EDOM, dir_fd, buf)"
    by (simp add: notmuchfs_readdir_def)
  from a b e full_buffer_keeps_message[of w dir_fd m buf d1 b1 rest]
    readdir_continues_with_current[of offset_in dir_fd m rest fname w st n]
  show ?thesis by blast
qed

lemma example_fill_full:
  "fill_dir_with_message example_world ((example_dir_fd ts)\<lparr>next_offset := 3\<rparr>) msg_a dots_buf
     = (INT_MAX, (example_dir_fd ts)\<lparr>next_offset := 3\<rparr>, dots_buf)"
  by (simp add: fill_dir_with_message_def msg_a_def example_world_def example_stat_def
      file_a_def filler_def fuse_dirent_size_def PATH_MAX_def Let_def dots_buf_def
      example_dir_fd_def)

lemma example_readdir_first:
  "notmuchfs_readdir example_world (example_dir_fd ts) (fresh_buf 64) 0
     = (0, (example_dir_fd ts)\<lparr>next_offset := 3\<rparr>, dots_buf)"
proof -
  have "query_loop example_world [msg_a] ((example_dir_fd ts)\<lparr>next_offset := 3\<rparr>) dots_buf
        = (0, (example_dir_fd ts)\<lparr>next_offset := 3\<rparr>, dots_buf)"
    by (simp add: example_fill_full) (simp add: example_dir_fd_def)
  then show ?thesis
    unfolding readdir_from_start[of 64, simplified]
    by (simp add: example_dir_fd_def dots_buf_def)
qed

lemma example_readdir_second:
  "notmuchfs_readdir example_world ((example_dir_fd ts)\<lparr>next_offset := 3\<rparr>) (fresh_buf 64) 2
     = (0, (example_dir_fd ts)\<lparr>next_offset := 4, p_messages := []\<rparr>,
        \<lparr>contents = [entry_a 3], used = 40, needlen = 64\<rparr>)"
  by (simp add: notmuchfs_readdir_def example_dir_fd_def fill_dir_with_message_def msg_a_def
      example_world_def example_stat_def file_a_def filler_def fuse_dirent_size_def
      PATH_MAX_def Let_def fresh_buf_def INT_MAX_def entry_a_def regular_def
      MAX_XLABEL_LENGTH_def)

text \<open>
  In the example mount a first call with a buffer of 64 bytes takes the two dot entries
  and refuses the message, a second call at offset 2 emits it at offset 3, and a call
  at offset 10 fails.
\<close>

theorem cur_readdir_offsets_witness:
  "notmuchfs_opendir example_world example_ctx ''/inbox/cur''
     = Some (Return (Inr (example_dir_fd [''deleted'', ''spam''])), example_ctx1)
   \<and> readdir_sequence example_world (example_dir_fd [''deleted'', ''spam''])
        ((example_dir_fd [''deleted'', ''spam''])\<lparr>next_offset := 4, p_messages := []\<rparr>)
        (dot_entries 1 @ [entry_a 3])
   \<and> map d_off (dot_entries 1 @ [entry_a 3]) = [1, 2, 3]
   \<and> query_loop example_world [msg_a]
        ((example_dir_fd [''deleted'', ''spam''])\<lparr>next_offset := 3\<rparr>) dots_buf
       = (0, (example_dir_fd [''deleted'', ''spam''])\<lparr>next_offset := 3\<rparr>, dots_buf)
   \<and> (\<exists>more. contents (snd (snd (notmuchfs_readdir example_world
        ((example_dir_fd [''deleted'', ''spam''])\<lparr>next_offset := 3\<rparr>) (fresh_buf 64) 2)))
          = entry_a 3 # more)
   \<and> notmuchfs_readdir example_world
        ((example_dir_fd [''deleted'', ''spam''])\<lparr>next_offset := 3\<rparr>) (fresh_buf 64) 10
       = (- EDOM, (example_dir_fd [''deleted'', ''spam''])\<lparr>next_offset := 3\<rparr>, fresh_buf 64)"
proof -
  let ?d0 = "example_dir_fd [''deleted'', ''spam'']"
  let ?d1 = "?d0\<lparr>next_offset := 3\<rparr>"
  let ?d2 = "?d0\<lparr>next_offset := 4, p_messages := []\<rparr>"
  have o: "notmuchfs_opendir example_world example_ctx ''/inbox/cur''
     = Some (Return (Inr ?d0), example_ctx1)"
    by (rule example_opendir_first)
  have t: "dir_type ?d0 = OPENDIR_TYPE_NOTMUCH_QUERY"
    by (simp add: example_dir_fd_def)
  have n: "(64::nat) \<le> 64" by simp
  have s1: "readdir_sequence example_world ?d0 ?d1 ([] @ contents dots_buf)"
    by (rule readdir_sequence.readdir[OF readdir_sequence.opened n example_readdir_first])
  have s2: "readdir_sequence example_world ?d0 ?d2
              (([] @ contents dots_buf) @ contents \<lparr>contents = [entry_a 3], used = 40, needlen = 64\<rparr>)"
    by (rule readdir_sequence.readdir[OF s1 n example_readdir_second])
  then have s: "readdir_sequence example_world ?d0 ?d2 (dot_entries 1 @ [entry_a 3])"
    by (simp add: dots_buf_def)
  have m: "p_messages ?d1 = msg_a # []" "msg_filename msg_a = Some file_a"
    by (simp_all add: example_dir_fd_def msg_a_def)
  have a: "map d_off (dot_entries 1 @ [entry_a 3]) = [1 .. next_offset ?d2 - 1]"
    using cur_readdir_offsets[OF o t s n] by simp
  have b: "query_loop example_world (msg_a # []) ?d1 dots_buf
           = (0, ?d1\<lparr>p_messages := msg_a # []\<rparr>, dots_buf)"
    using cur_readdir_offsets[OF o t s1 n, where m = msg_a and buf = dots_buf and ?d1.0 = ?d1
          and ?b1.0 = dots_buf and rest = "[]"]
      example_fill_full[of "[''deleted'', ''spam'']"]
    by simp
  have c: "notmuchfs_readdir example_world ?d1 (fresh_buf 64) 10
           = (- EDOM, ?d1, fresh_buf 64)"
    using cur_readdir_offsets[OF o t s1 n, where offset_in = 10 and buf = "fresh_buf 64"]
    by simp
  have st: "stat_r example_world file_a = Inr (regular 11 12)"
    by (simp add: example_world_def example_stat_def file_a_def)
  have fits: "fuse_dirent_size (length (take (PATH_MAX - 1) file_a)) \<le> 64"
    by (simp add: fuse_dirent_size_def file_a_def PATH_MAX_def)
  have d: "\<exists>more. contents (snd (snd (notmuchfs_readdir example_world ?d1 (fresh_buf 64) 2)))
          = entry_a 3 # more"
    using cur_readdir_offsets[OF o t s1 n, where offset_in = 2 and m = msg_a and rest = "[]"
          and fname = file_a and st = "regular 11 12"] m st fits
    by (simp add: entry_a_def encode_def file_a_def PATH_MAX_def regular_def example_dir_fd_def)
  have "[1 .. next_offset ?d2 - 1] = [1, 2, 3]"
    by (simp add: upto_rec1)
  with o s a b c d show ?thesis
    by (simp add: example_dir_fd_def)
qed

subsection \<open>rename\<close>

lemma rename_accepted:
  assumes "rename_validate allowed from to = Accepted k F T"
    and "take 1 from = ''/''" and "take 1 to = ''/''"
    and "rename_r w F T = None"
  shows "notmuchfs_rename allowed w from to
         = (fst (rename_in_database allowed w k F T),
            Sys_rename F T # snd (rename_in_database allowed w k F T))"
  using assms by (simp add: notmuchfs_rename_def split: prod.splits)

lemma rename_rejected:
  assumes "rename_validate allowed from to = Rejected"
    and "take 1 from = ''/''" and "take 1 to = ''/''"
  shows "notmuchfs_rename allowed w from to = (Return (- ENOTSUP), [])"
  using assms by (simp add: notmuchfs_rename_def)

lemma rename_one_hash_rejected:
  assumes "(strrchr_from from 1 CHR ''#'' = None) \<noteq> (strrchr_from to 1 CHR ''#'' = None)"
  shows "rename_validate allowed from to = Rejected"
  using assms by (auto simp: rename_validate_def Let_def split: option.splits)

lemma rename_hash_positions_rejected:
  assumes "strrchr_from from 1 CHR ''#'' = Some pf" "strrchr_from to 1 CHR ''#'' = Some pt"
    and "pf \<noteq> pt"
  shows "rename_validate allowed from to = Rejected"
  using assms by (simp add: rename_validate_def Let_def)

lemma rename_prefix_rejected:
  assumes "strrchr_from from 1 CHR ''#'' = Some pf" "strrchr_from to 1 CHR ''#'' = Some pf"
    and "take pf from \<noteq> take pf to"
  shows "rename_validate False from to = Rejected"
  using assms by (simp add: rename_validate_def Let_def)

lemma LOG_TRACE_nothing: "LOG_TRACE text = []"
  by (simp add: LOG_TRACE_def NOTMUCHFS_DEBUG_def)

lemma rename_in_database_calls:
  assumes "F \<noteq> T"
  shows "(Add_message T \<in> set (snd (rename_in_database allowed w k F T))
          \<longleftrightarrow> database_open (db_open_r w) (db_needs_upgrade w) = Opened
              \<and> begin_atomic_r w = NOTMUCH_STATUS_SUCCESS)
       \<and> (Remove_message F \<in> set (snd (rename_in_database allowed w k F T))
          \<longleftrightarrow> database_open (db_open_r w) (db_needs_upgrade w) = Opened
              \<and> begin_atomic_r w = NOTMUCH_STATUS_SUCCESS
              \<and> add_message_r w T = NOTMUCH_STATUS_DUPLICATE_MESSAGE_ID)
       \<and> (\<forall>text. Printf text \<notin> set (snd (rename_in_database allowed w k F T)))"
  using assms
  by (auto simp: rename_in_database_def Let_def LOG_TRACE_nothing
      split: db_open_outcome.splits prod.splits option.splits if_splits)

lemma rename_in_database_swap:
  assumes "database_open (db_open_r w) (db_needs_upgrade w) = Opened"
    and "begin_atomic_r w = NOTMUCH_STATUS_SUCCESS" and "F \<noteq> T"
  shows "take 4 (snd (rename_in_database allowed w k F T))
         = [Database_open True, Begin_atomic, Add_message T,
            if add_message_r w T = NOTMUCH_STATUS_DUPLICATE_MESSAGE_ID
            then Remove_message F else Find_message T]"
  using assms
  by (auto simp: rename_in_database_def Let_def LOG_TRACE_nothing
      split: prod.splits option.splits)

lemma rename_in_database_same:
  "(\<forall>x. Add_message x \<notin> set (snd (rename_in_database allowed w k F F))
        \<and> Remove_message x \<notin> set (snd (rename_in_database allowed w k F F)))
   \<and> (Find_message F \<in> set (snd (rename_in_database allowed w k F F))
        \<longleftrightarrow> database_open (db_open_r w) (db_needs_upgrade w) = Opened
            \<and> begin_atomic_r w = NOTMUCH_STATUS_SUCCESS)
   \<and> (Maildir_flags_to_tags F \<in> set (snd (rename_in_database allowed w k F F))
        \<longleftrightarrow> database_open (db_open_r w) (db_needs_upgrade w) = Opened
            \<and> begin_atomic_r w = NOTMUCH_STATUS_SUCCESS
            \<and> (\<exists>msg. find_message_r w F = (NOTMUCH_STATUS_SUCCESS, Some msg)))"
  by (auto simp: rename_in_database_def Let_def LOG_TRACE_nothing
      split: db_open_outcome.splits prod.splits option.splits if_splits)

text \<open>
  Claim C4, amended. Let a rename pass the checks with decoded names \<open>F \<noteq> T\<close>, and let
  the rename of \<open>F\<close> to \<open>T\<close> in the backing store succeed. \<open>T\<close> is added to the index
  exactly when the database opens and the atomic section begins. When the add returned
  the duplicate-message-id status the next call is the removal of \<open>F\<close>; with any other
  status (success included) \<open>F\<close> is not removed and the next call is the lookup of \<open>T\<close>.
  Nothing is printed: the warning of that branch is a \<open>LOG_TRACE\<close> statement.
\<close>

theorem rename_duplicate_status_triggers_remove:
  assumes "rename_validate allowed from to = Accepted k F T"
    and "take 1 from = ''/''" and "take 1 to = ''/''"
    and "F \<noteq> T" and "rename_r w F T = None"
  shows "(Add_message T \<in> set (snd (notmuchfs_rename allowed w from to))
          \<longleftrightarrow> database_open (db_open_r w) (db_needs_upgrade w) = Opened
              \<and> begin_atomic_r w = NOTMUCH_STATUS_SUCCESS)
       \<and> (database_open (db_open_r w) (db_needs_upgrade w) = Opened
            \<and> begin_atomic_r w = NOTMUCH_STATUS_SUCCESS \<longrightarrow>
          take 5 (snd (notmuchfs_rename allowed w from to))
            = [Sys_rename F T, Database_open True, Begin_atomic, Add_message T,
               if add_message_r w T = NOTMUCH_STATUS_DUPLICATE_MESSAGE_ID
               then Remove_message F else Find_message T])
       \<and> (Remove_message F \<in> set (snd (notmuchfs_rename allowed w from to))
          \<longleftrightarrow> database_open (db_open_r w) (db_needs_upgrade w) = Opened
              \<and> begin_atomic_r w = NOTMUCH_STATUS_SUCCESS
              \<and> add_message_r w T = NOTMUCH_STATUS_DUPLICATE_MESSAGE_ID)
       \<and> (\<forall>text. Printf text \<notin> set (snd (notmuchfs_rename allowed w from to)))"
proof -
  let ?db = "snd (rename_in_database allowed w k F T)"
  have c: "snd (notmuchfs_rename allowed w from to) = Sys_rename F T # ?db"
    using rename_accepted[OF assms(1,2,3,5)] by simp
  have t: "take 5 (Sys_rename F T # ?db) = Sys_rename F T # take 4 ?db"
    by (simp add: take_Cons')
  show ?thesis
    unfolding c t
    using rename_in_database_calls[OF assms(4), of allowed w k]
      rename_in_database_swap[OF _ _ assms(4), of w allowed k]
    by simp
qed

text \<open>
  Claim C6, amended. When a rename passes the checks with equal decoded names and the
  rename in the backing store succeeds, no message is added to the index and none is
  removed; the message is still looked up by the name (once the database is open and
  the atomic section has begun), and when the lookup finds it, its maildir flags are
  turned into tags.
\<close>

theorem rename_same_name_skips_add_only:
  assumes "rename_validate allowed from to = Accepted k F F"
    and "take 1 from = ''/''" and "take 1 to = ''/''"
    and "rename_r w F F = None"
  shows "(\<forall>x. Add_message x \<notin> set (snd (notmuchfs_rename allowed w from to))
            \<and> Remove_message x \<notin> set (snd (notmuchfs_rename allowed w from to)))
       \<and> (Find_message F \<in> set (snd (notmuchfs_rename allowed w from to))
            \<longleftrightarrow> database_open (db_open_r w) (db_needs_upgrade w) = Opened
                \<and> begin_atomic_r w = NOTMUCH_STATUS_SUCCESS)
       \<and> (Maildir_flags_to_tags F \<in> set (snd (notmuchfs_rename allowed w from to))
            \<longleftrightarrow> database_open (db_open_r w) (db_needs_upgrade w) = Opened
                \<and> begin_atomic_r w = NOTMUCH_STATUS_SUCCESS
                \<and> (\<exists>msg. find_message_r w F = (NOTMUCH_STATUS_SUCCESS, Some msg)))"
proof -
  have c: "snd (notmuchfs_rename allowed w from to)
           = Sys_rename F F # snd (rename_in_database allowed w k F F)"
    using rename_accepted[OF assms] by simp
  show ?thesis
    unfolding c using rename_in_database_same[of allowed w k F] by simp
qed

lemma validate_flag_change:
  "rename_validate allowed virtual_a virtual_a_seen = Accepted 0 file_a file_a_seen"
  by (simp add: rename_validate_def virtual_a_def virtual_a_seen_def strrchr_from_def
      trans_names_def PATH_MAX_def file_a_def file_a_seen_def Let_def)

lemma validate_cur_to_new:
  "rename_validate True virtual_a virtual_a_new = Accepted 1 file_a file_a"
  by (simp add: rename_validate_def virtual_a_def virtual_a_new_def strrchr_from_def
      trans_names_def workaround_case_def three_before_def PATH_MAX_def file_a_def Let_def)

lemma rename_world_simps:
  "rename_r rename_world F T = None"
  "database_open (db_open_r rename_world) (db_needs_upgrade rename_world) = Opened"
  "begin_atomic_r rename_world = NOTMUCH_STATUS_SUCCESS"
  "add_message_r rename_world T = NOTMUCH_STATUS_DUPLICATE_MESSAGE_ID"
  "remove_message_r rename_world F = NOTMUCH_STATUS_DUPLICATE_MESSAGE_ID"
  "find_message_r rename_world T = (NOTMUCH_STATUS_SUCCESS, Some msg_a)"
  "end_atomic_r rename_world = NOTMUCH_STATUS_SUCCESS"
  by (simp_all add: rename_world_def example_world_def)

text \<open>
  The rename that adds the flag \<open>S\<close> in the example mount, with an index that answers
  the add with the duplicate status, and with one that answers success.
\<close>

theorem rename_duplicate_status_triggers_remove_witness:
  "rename_validate False virtual_a virtual_a_seen = Accepted 0 file_a file_a_seen
   \<and> take 5 (snd (notmuchfs_rename False rename_world virtual_a virtual_a_seen))
       = [Sys_rename file_a file_a_seen, Database_open True, Begin_atomic,
          Add_message file_a_seen, Remove_message file_a]
   \<and> take 5 (snd (notmuchfs_rename False success_world virtual_a virtual_a_seen))
       = [Sys_rename file_a file_a_seen, Database_open True, Begin_atomic,
          Add_message file_a_seen, Find_message file_a_seen]
   \<and> Remove_message file_a
        \<notin> set (snd (notmuchfs_rename False success_world virtual_a virtual_a_seen))"
proof -
  have s: "take 1 virtual_a = ''/''" "take 1 virtual_a_seen = ''/''"
    by (simp_all add: virtual_a_def virtual_a_seen_def)
  have ne: "file_a \<noteq> file_a_seen"
    by (simp add: file_a_def file_a_seen_def)
  have r: "rename_r rename_world file_a file_a_seen = None"
    "rename_r success_world file_a file_a_seen = None"
    by (simp_all add: success_world_def rename_world_def example_world_def)
  have w: "database_open (db_open_r success_world) (db_needs_upgrade success_world) = Opened"
    "begin_atomic_r success_world = NOTMUCH_STATUS_SUCCESS"
    "add_message_r success_world file_a_seen = NOTMUCH_STATUS_SUCCESS"
    by (simp_all add: success_world_def rename_world_def example_world_def)
  note a = rename_duplicate_status_triggers_remove[OF validate_flag_change s ne r(1)]
  note b = rename_duplicate_status_triggers_remove[OF validate_flag_change s ne r(2)]
  from a b w show ?thesis
    by (simp add: rename_world_simps validate_flag_change)
qed

text \<open>
  Claim C4 as stated fails where it says that a status other than duplicate causes a
  warning: when the add answers success, the rename goes from the add straight to the
  lookup, and the \<open>LOG_TRACE\<close> statement of that branch prints nothing.
\<close>

theorem rename_success_status_prints_nothing_counterexample:
  "add_message_r success_world file_a_seen = NOTMUCH_STATUS_SUCCESS
   \<and> notmuchfs_rename False success_world virtual_a virtual_a_seen
       = (Return 0,
          [Sys_rename file_a file_a_seen, Database_open True, Begin_atomic,
           Add_message file_a_seen, Find_message file_a_seen,
           Maildir_flags_to_tags file_a_seen, End_atomic, Database_close])
   \<and> LOG_TRACE (''WARNING: Did not find message in database: '' @ file_a_seen @ [CHR 0x0A])
       = []"
proof -
  have s: "take 1 virtual_a = ''/''" "take 1 virtual_a_seen = ''/''"
    by (simp_all add: virtual_a_def virtual_a_seen_def)
  have ne: "file_a \<noteq> file_a_seen"
    by (simp add: file_a_def file_a_seen_def)
  have w: "rename_r success_world file_a file_a_seen = None"
    "database_open (db_open_r success_world) (db_needs_upgrade success_world) = Opened"
    "begin_atomic_r success_world = NOTMUCH_STATUS_SUCCESS"
    "add_message_r success_world file_a_seen = NOTMUCH_STATUS_SUCCESS"
    "find_message_r success_world file_a_seen = (NOTMUCH_STATUS_SUCCESS, Some msg_a)"
    "end_atomic_r success_world = NOTMUCH_STATUS_SUCCESS"
    by (simp_all add: success_world_def rename_world_def example_world_def)
  have d: "rename_in_database False success_world 0 file_a file_a_seen
        = (Return 0,
           [Database_open True, Begin_atomic, Add_message file_a_seen,
            Find_message file_a_seen, Maildir_flags_to_tags file_a_seen, End_atomic,
            Database_close])"
    using ne by (simp add: rename_in_database_def w Let_def LOG_TRACE_nothing)
  have "notmuchfs_rename False success_world virtual_a virtual_a_seen
       = (Return 0,
          [Sys_rename file_a file_a_seen, Database_open True, Begin_atomic,
           Add_message file_a_seen, Find_message file_a_seen,
           Maildir_flags_to_tags file_a_seen, End_atomic, Database_close])"
    unfolding notmuchfs_rename_def validate_flag_change using s d by (simp add: w)
  then show ?thesis by (simp add: w LOG_TRACE_nothing)
qed

text \<open>
  Claim C6 as stated fails: the rename from \<open>cur\<close> to \<open>new\<close> in compatibility mode decodes
  both names to the same file; nothing is added or removed, but the message is looked
  up again and its maildir flags are turned into tags.
\<close>

theorem rename_same_name_still_syncs_flags_counterexample:
  "rename_validate True virtual_a virtual_a_new = Accepted 1 file_a file_a
   \<and> notmuchfs_rename True example_world virtual_a virtual_a_new
       = (Return 0,
          [Sys_rename file_a file_a, Database_open True, Begin_atomic, Find_message file_a,
           Maildir_flags_to_tags file_a, Add_tag file_a ''unread'', End_atomic,
           Database_close])"
proof -
  have s: "take 1 virtual_a = ''/''" "take 1 virtual_a_new = ''/''"
    by (simp_all add: virtual_a_def virtual_a_new_def)
  have "rename_in_database True example_world 1 file_a file_a
        = (Return 0,
           [Database_open True, Begin_atomic, Find_message file_a,
            Maildir_flags_to_tags file_a, Add_tag file_a ''unread'', End_atomic,
            Database_close])"
    by (simp add: rename_in_database_def example_world_def Let_def)
  then show ?thesis
    using s by (simp add: notmuchfs_rename_def validate_cur_to_new example_world_def)
qed

text \<open>
  The rename from \<open>cur\<close> to \<open>new\<close> of the example mount.
\<close>

theorem rename_same_name_skips_add_only_witness:
  "rename_validate True virtual_a virtual_a_new = Accepted 1 file_a file_a
   \<and> Add_message file_a \<notin> set (snd (notmuchfs_rename True example_world virtual_a virtual_a_new))
   \<and> Remove_message file_a \<notin> set (snd (notmuchfs_rename True example_world virtual_a virtual_a_new))
   \<and> Find_message file_a \<in> set (snd (notmuchfs_rename True example_world virtual_a virtual_a_new))
   \<and> Maildir_flags_to_tags file_a
        \<in> set (snd (notmuchfs_rename True example_world virtual_a virtual_a_new))"
proof -
  have s: "take 1 virtual_a = ''/''" "take 1 virtual_a_new = ''/''"
    by (simp_all add: virtual_a_def virtual_a_new_def)
  have r: "rename_r example_world file_a file_a = None"
    by (simp add: example_world_def)
  have w: "database_open (db_open_r example_world) (db_needs_upgrade example_world) = Opened"
    "begin_atomic_r example_world = NOTMUCH_STATUS_SUCCESS"
    "find_message_r example_world file_a = (NOTMUCH_STATUS_SUCCESS, Some msg_a)"
    by (simp_all add: example_world_def)
  from rename_same_name_skips_add_only[OF validate_cur_to_new s r] w
  show ?thesis by (simp add: validate_cur_to_new)
qed

text \<open>
  Claim C5 at a rename in compatibility mode whose names differ before the last \<open>#\<close> in
  more than the parent segment: \<open>/q/cur/#a#x#f\<close> to \<open>/q/new/#b#y#g\<close>. The checks accept it
  as case 1, the file \<open>/a/x/f\<close> is renamed to \<open>/b/y/g\<close> in another directory, and the index
  is changed. The same holds when the parent segments only end in \<open>cur\<close> and \<open>new\<close>.
  Without compatibility mode the rename is rejected.
\<close>

theorem rename_rescue_across_directories:
  "take 11 ''/q/cur/#a#x#f'' = ''/q/cur/#a#x'' \<and> take 11 ''/q/new/#b#y#g'' = ''/q/new/#b#y''
   \<and> rename_validate True ''/q/cur/#a#x#f'' ''/q/new/#b#y#g'' = Accepted 1 ''/a/x/f'' ''/b/y/g''
   \<and> notmuchfs_rename True rename_world ''/q/cur/#a#x#f'' ''/q/new/#b#y#g''
       = (Return 0,
          [Sys_rename ''/a/x/f'' ''/b/y/g'', Database_open True, Begin_atomic,
           Add_message ''/b/y/g'', Remove_message ''/a/x/f'', Find_message ''/b/y/g'',
           Maildir_flags_to_tags ''/b/y/g'', Add_tag ''/b/y/g'' ''unread'', End_atomic,
           Database_close])
   \<and> rename_validate True ''/q/xcur/#a#f'' ''/q/xnew/#a#g'' = Accepted 1 ''/a/f'' ''/a/g''
   \<and> rename_validate False ''/q/cur/#a#x#f'' ''/q/new/#b#y#g'' = Rejected"
proof -
  have v: "rename_validate True ''/q/cur/#a#x#f'' ''/q/new/#b#y#g''
           = Accepted 1 ''/a/x/f'' ''/b/y/g''"
    by (simp add: rename_validate_def strrchr_from_def trans_names_def workaround_case_def
        three_before_def PATH_MAX_def Let_def)
  have d: "rename_in_database True rename_world 1 ''/a/x/f'' ''/b/y/g''
        = (Return 0,
           [Database_open True, Begin_atomic, Add_message ''/b/y/g'',
            Remove_message ''/a/x/f'', Find_message ''/b/y/g'',
            Maildir_flags_to_tags ''/b/y/g'', Add_tag ''/b/y/g'' ''unread'', End_atomic,
            Database_close])"
    by (simp add: rename_in_database_def rename_world_simps Let_def)
  have r: "notmuchfs_rename True rename_world ''/q/cur/#a#x#f'' ''/q/new/#b#y#g''
       = (Return 0,
          [Sys_rename ''/a/x/f'' ''/b/y/g'', Database_open True, Begin_atomic,
           Add_message ''/b/y/g'', Remove_message ''/a/x/f'', Find_message ''/b/y/g'',
           Maildir_flags_to_tags ''/b/y/g'', Add_tag ''/b/y/g'' ''unread'', End_atomic,
           Database_close])"
    unfolding notmuchfs_rename_def v using d by (simp add: rename_world_simps)
  have x: "rename_validate True ''/q/xcur/#a#f'' ''/q/xnew/#a#g'' = Accepted 1 ''/a/f'' ''/a/g''"
    by (simp add: rename_validate_def strrchr_from_def trans_names_def workaround_case_def
        three_before_def PATH_MAX_def Let_def)
  have n: "rename_validate False ''/q/cur/#a#x#f'' ''/q/new/#b#y#g'' = Rejected"
    by (simp add: rename_validate_def strrchr_from_def Let_def)
  from v r x n show ?thesis by simp
qed

end
